theory Spec2Isabelle
  imports Complex_Main "HOL-Library.Word"
begin

section \<open>JavaScript values used by the application\<close>

text \<open>
  A JavaScript string is a sequence of UTF-16 code units; \<open>.length\<close> counts code units.
  Numbers that the code only compares or prints (\<open>duration\<close>, \<open>Date.now()\<close>, HTTP status
  codes) are whole numbers, so a duration with a fractional part is not an input of the
  model; the progress percentage and the estimated time, which the code multiplies by
  fractions, are reals.
\<close>

type_synonym jschar = "16 word"
type_synonym jsstring = "jschar list"

definition js :: "string \<Rightarrow> jsstring" where
  "js s = map of_char s"

text \<open>
  \<open>String.prototype.trim\<close> removes the ECMAScript WhiteSpace and LineTerminator code
  points from both ends; all of them lie in the basic plane, so each is one code unit.
\<close>

definition isWhiteSpace :: "jschar \<Rightarrow> bool" where
  "isWhiteSpace c \<longleftrightarrow>
     c \<in> set [0x9, 0xA, 0xB, 0xC, 0xD, 0x20, 0xA0, 0x1680, 0x2028, 0x2029,
               0x202F, 0x205F, 0x3000, 0xFEFF]
     \<or> (0x2000 \<le> c \<and> c \<le> 0x200A)"

definition trim :: "jsstring \<Rightarrow> jsstring" where
  "trim s = rev (dropWhile isWhiteSpace (rev (dropWhile isWhiteSpace s)))"

text \<open>\<open>s.includes(t)\<close>: \<open>t\<close> occurs in \<open>s\<close> as a contiguous run.\<close>

fun includes_str :: "jsstring \<Rightarrow> jsstring \<Rightarrow> bool" where
  "includes_str [] t = (t = [])"
| "includes_str (c # s) t = (take (length t) (c # s) = t \<or> includes_str s t)"

text \<open>\<open>s.substr(start, len)\<close> for non-negative arguments.\<close>

definition substr :: "jsstring \<Rightarrow> nat \<Rightarrow> nat \<Rightarrow> jsstring" where
  "substr s start len = take len (drop start s)"

text \<open>Template-literal rendering of a whole number: its decimal digits.\<close>

definition digit :: "nat \<Rightarrow> jschar" where
  "digit d = 48 + of_nat d"

function decimal :: "nat \<Rightarrow> jsstring" where
  "decimal n = (if n < 10 then [digit n] else decimal (n div 10) @ [digit (n mod 10)])"
  by pat_completeness auto
termination
  by (relation "measure (\<lambda>n. n)") auto

declare decimal.simps [simp del]

definition showInt :: "int \<Rightarrow> jsstring" where
  "showInt i = (if i < 0 then js ''-'' @ decimal (nat (- i)) else decimal (nat i))"

text \<open>
  \<open>String.prototype.toLowerCase\<close> follows the Unicode case tables of the platform and is
  a parameter of the functions that call it. On texts whose only cased letters are the
  Latin capitals \<open>A\<close> to \<open>Z\<close> it is the following function, which the examples use.
\<close>

definition asciiLowerCase :: "jsstring \<Rightarrow> jsstring" where
  "asciiLowerCase s = map (\<lambda>c. if 0x41 \<le> c \<and> c \<le> 0x5A then c + 0x20 else c) s"

text \<open>A thrown value: an \<open>Error\<close> object with its message, or anything else.\<close>

datatype thrown = Error jsstring | NonError

text \<open>\<open>error instanceof Error ? error.message : fallback\<close>\<close>

fun messageOr :: "jsstring \<Rightarrow> thrown \<Rightarrow> jsstring" where
  "messageOr fallback (Error m) = m"
| "messageOr fallback NonError = fallback"

section \<open>Requests, responses and generations\<close>

datatype status = processing | completed | failed

text \<open>
  \<open>VideoGenerationRequest\<close>. The prompt is optional in the model so that an absent
  (\<open>undefined\<close> or \<open>null\<close>) prompt of a JSON body is an input.
\<close>

record VideoGenerationRequest =
  req_prompt :: "jsstring option"
  req_duration :: int
  req_aspectRatio :: jsstring
  req_style :: jsstring
  req_quality :: jsstring

record VideoGenerationResponse =
  success :: bool
  res_videoUrl :: "jsstring option"
  res_error :: "jsstring option"
  res_taskId :: "jsstring option"
  res_status :: "status option"
  estimatedTime :: "real option"

definition emptyResponse :: VideoGenerationResponse where
  "emptyResponse = \<lparr> success = False, res_videoUrl = None, res_error = None,
     res_taskId = None, res_status = None, estimatedTime = None \<rparr>"

text \<open>JavaScript truthiness of an optional string: absent and \<open>''\<close> are falsy.\<close>

fun truthy :: "jsstring option \<Rightarrow> bool" where
  "truthy None = False"
| "truthy (Some s) = (s \<noteq> [])"

section \<open>Client-side request validation (\<open>validateVideoRequest\<close>)\<close>

definition validDurations :: "int list" where
  "validDurations = [5, 10, 15, 30]"

definition validAspectRatios :: "jsstring list" where
  "validAspectRatios = [js ''16:9'', js ''9:16'', js ''1:1'']"

definition validateVideoRequest :: "VideoGenerationRequest \<Rightarrow> jsstring option" where
  "validateVideoRequest request =
     (if \<not> truthy (req_prompt request) \<or> length (trim (the (req_prompt request))) = 0
        then Some (js ''Prompt is required'')
      else if length (the (req_prompt request)) > 1000
        then Some (js ''Prompt must be less than 1000 characters'')
      else if req_duration request \<notin> set validDurations
        then Some (js ''Duration must be 5, 10, 15, or 30 seconds'')
      else if req_aspectRatio request \<notin> set validAspectRatios
        then Some (js ''Invalid aspect ratio'')
      else None)"

section \<open>The proxy endpoint (\<open>POST /api/generate-video\<close>)\<close>

record NextResponse =
  http_status :: nat
  body :: VideoGenerationResponse

definition createEnhancedPrompt ::
  "(jsstring \<Rightarrow> jsstring) \<Rightarrow> VideoGenerationRequest \<Rightarrow> jsstring" where
  "createEnhancedPrompt toLowerCase request =
     js ''Generate a '' @ showInt (req_duration request) @ js ''-second video''
     @ (if req_aspectRatio request = js ''16:9'' then js '' in widescreen format (16:9)''
        else if req_aspectRatio request = js ''9:16'' then js '' in portrait format (9:16)''
        else js '' in square format (1:1)'')
     @ (if req_quality request = js ''high'' then js '', high quality, 4K resolution'' else [])
     @ (if req_style request \<noteq> [] \<and> req_style request \<noteq> js ''default''
        then js '', '' @ toLowerCase (req_style request) @ js '' style'' else [])
     @ js '': '' @ the (req_prompt request)
     @ js ''. Ensure smooth motion, clear visuals, and professional quality.''"

definition estimateProcessingTime :: "int \<Rightarrow> jsstring \<Rightarrow> real" where
  "estimateProcessingTime duration quality =
     (let baseTime = real_of_int duration * 10;
          baseTime = (if quality = js ''high'' then baseTime * 1.5 else baseTime)
      in max baseTime 30)"

text \<open>
  \<open>Date.now()\<close> and \<open>Math.random().toString(36)\<close> are inputs: \<open>now\<close> is the clock
  reading in milliseconds and \<open>r36\<close> the base-36 text of the random draw (\<open>0.xyz...\<close>).
\<close>

definition generateTaskId :: "nat \<Rightarrow> jsstring \<Rightarrow> jsstring" where
  "generateTaskId now r36 = js ''task_'' @ decimal now @ js ''_'' @ substr r36 2 9"

text \<open>
  What the external provider does when it is called: \<open>fetch\<close> rejects; the reply is
  not ok (status and status text), or reading its text rejects; \<open>response.json()\<close>
  rejects; the reply has no \<open>choices[0].message\<close>; the content is not a string, so
  that \<open>content.match\<close> raises; or the reply carries a content string, given with the
  result of matching it against \<open>/https?:\/\/[^\s]+\.mp4/\<close> (the matched text, if any).
\<close>

datatype provider_outcome =
    FetchThrows thrown
  | NotOk nat jsstring
  | TextThrows thrown
  | JsonThrows thrown
  | NoMessage
  | MatchThrows thrown
  | Message jsstring "jsstring option"

definition handleProvider ::
  "nat \<Rightarrow> jsstring \<Rightarrow> VideoGenerationRequest \<Rightarrow> provider_outcome \<Rightarrow> thrown + NextResponse" where
  "handleProvider now r36 request outcome =
     (case outcome of
        FetchThrows e \<Rightarrow> Inl e
      | NotOk st statusText \<Rightarrow>
          Inr \<lparr> http_status = 500,
                body = emptyResponse \<lparr> success := False,
                  res_error := Some (js ''Failed to generate video: '' @ decimal st
                                     @ js '' '' @ statusText),
                  res_status := Some failed \<rparr> \<rparr>
      | TextThrows e \<Rightarrow> Inl e
      | JsonThrows e \<Rightarrow> Inl e
      | MatchThrows e \<Rightarrow> Inl e
      | Message content videoUrlMatch \<Rightarrow>
          (case videoUrlMatch of
             Some url \<Rightarrow>
               Inr \<lparr> http_status = 200,
                     body = emptyResponse \<lparr> success := True, res_videoUrl := Some url,
                       res_status := Some completed \<rparr> \<rparr>
           | None \<Rightarrow>
               if includes_str content (js ''processing'') \<or> includes_str content (js ''generating'')
               then Inr \<lparr> http_status = 200,
                     body = emptyResponse \<lparr> success := True, res_status := Some processing,
                       estimatedTime := Some (estimateProcessingTime (req_duration request)
                                                (req_quality request)),
                       res_taskId := Some (generateTaskId now r36) \<rparr> \<rparr>
               else Inr \<lparr> http_status = 200,
                     body = emptyResponse \<lparr> success := True,
                       res_videoUrl := Some (trim content),
                       res_status := Some completed \<rparr> \<rparr>)
      | NoMessage \<Rightarrow>
          Inr \<lparr> http_status = 500,
                body = emptyResponse \<lparr> success := False,
                  res_error := Some (js ''Invalid response from video generation service''),
                  res_status := Some failed \<rparr> \<rparr>)"

text \<open>
  \<open>POST\<close> returns the response together with the list of calls made to the external
  provider (each call is the enhanced prompt that was sent). The first argument is the
  result of reading the body: \<open>Inl\<close> when \<open>request.json()\<close> throws on a malformed body,
  or when the body is not of the declared type and reading it raises (a \<open>null\<close> body, a
  prompt that is not a string); both end in the \<open>catch\<close> clause.
\<close>

definition badRequest :: "jsstring \<Rightarrow> NextResponse" where
  "badRequest msg =
     \<lparr> http_status = 400, body = emptyResponse \<lparr> success := False, res_error := Some msg \<rparr> \<rparr>"

definition serverError :: "thrown \<Rightarrow> NextResponse" where
  "serverError e =
     \<lparr> http_status = 500,
       body = emptyResponse \<lparr> success := False,
         res_error := Some (messageOr (js ''Internal server error'') e),
         res_status := Some failed \<rparr> \<rparr>"

definition POST ::
  "(jsstring \<Rightarrow> jsstring) \<Rightarrow> nat \<Rightarrow> jsstring \<Rightarrow> thrown + VideoGenerationRequest
     \<Rightarrow> provider_outcome \<Rightarrow> NextResponse \<times> jsstring list" where
  "POST toLowerCase now r36 parsed outcome =
     (case parsed of
        Inl e \<Rightarrow> (serverError e, [])
      | Inr request \<Rightarrow>
          if \<not> truthy (req_prompt request) \<or> length (trim (the (req_prompt request))) = 0
            then (badRequest (js ''Prompt is required''), [])
          else if length (the (req_prompt request)) > 1000
            then (badRequest (js ''Prompt must be less than 1000 characters''), [])
          else if req_duration request \<notin> set validDurations
            then (badRequest (js ''Duration must be 5, 10, 15, or 30 seconds''), [])
          else if req_aspectRatio request \<notin> set validAspectRatios
            then (badRequest (js ''Invalid aspect ratio''), [])
          else
            (let enhancedPrompt = createEnhancedPrompt toLowerCase request in
             case handleProvider now r36 request outcome of
               Inl e \<Rightarrow> (serverError e, [enhancedPrompt])
             | Inr response \<Rightarrow> (response, [enhancedPrompt])))"

section \<open>The API client (\<open>VideoGenerationAPI\<close>)\<close>

text \<open>
  What \<open>fetch\<close> does: it rejects (a network failure), or it resolves to a response
  with an HTTP status whose \<open>json()\<close> either rejects or yields the body.
  \<open>response.ok\<close> is true for the statuses 200 to 299.
\<close>

datatype 'a fetch_outcome = Rejects thrown | Responds nat "thrown + 'a"

definition response_ok :: "nat \<Rightarrow> bool" where
  "response_ok st \<longleftrightarrow> 200 \<le> st \<and> st \<le> 299"

text \<open>The body of the \<open>try\<close> block shared by the three methods; \<open>Inl\<close> is a throw.\<close>

definition fetchJson :: "'a fetch_outcome \<Rightarrow> thrown + 'a" where
  "fetchJson outcome =
     (case outcome of
        Rejects e \<Rightarrow> Inl e
      | Responds st result \<Rightarrow>
          if \<not> response_ok st then Inl (Error (js ''HTTP error! status: '' @ decimal st))
          else result)"

definition failureResult :: "thrown \<Rightarrow> VideoGenerationResponse" where
  "failureResult e =
     emptyResponse \<lparr> success := False,
       res_error := Some (messageOr (js ''Unknown error occurred'') e),
       res_status := Some failed \<rparr>"

definition VideoGenerationAPI_generateVideo ::
  "VideoGenerationRequest \<Rightarrow> VideoGenerationResponse fetch_outcome
     \<Rightarrow> thrown + VideoGenerationResponse" where
  "VideoGenerationAPI_generateVideo request outcome =
     (case fetchJson outcome of
        Inr result \<Rightarrow> Inr result
      | Inl e \<Rightarrow> Inr (failureResult e))"


text \<open>\<open>getHealthStatus\<close> logs and rethrows.\<close>

definition VideoGenerationAPI_getHealthStatus :: "'h fetch_outcome \<Rightarrow> thrown + 'h" where
  "VideoGenerationAPI_getHealthStatus outcome =
     (case fetchJson outcome of
        Inr result \<Rightarrow> Inr result
      | Inl e \<Rightarrow> Inl e)"

section \<open>The history store\<close>

text \<open>
  The store keeps one key of \<open>localStorage\<close>, \<open>video-generation-history\<close>; its value
  is absent or a text. The records are \<open>any\<close> in the source: JSON values.
\<close>

datatype json =
    JNull
  | JBool bool
  | JNum real
  | JStr jsstring
  | JArr "json list"
  | JObj "(jsstring \<times> json) list"

type_synonym localStorage = "jsstring option"

text \<open>
  \<open>JSON.parse\<close> and \<open>JSON.stringify\<close> belong to the platform and are parameters:
  \<open>parse\<close> yields \<open>None\<close> where \<open>JSON.parse\<close> throws, and \<open>stringify n v\<close> is
  \<open>JSON.stringify(v, null, n)\<close> (\<open>n = 0\<close> for the one-argument call).
\<close>

record JSON =
  parse :: "jsstring \<Rightarrow> json option"
  stringify :: "nat \<Rightarrow> json \<Rightarrow> jsstring"

definition getGenerationHistory :: "JSON \<Rightarrow> localStorage \<Rightarrow> json" where
  "getGenerationHistory J store =
     (case store of
        None \<Rightarrow> JArr []
      | Some history \<Rightarrow>
          if history = [] then JArr []
          else (case parse J history of None \<Rightarrow> JArr [] | Some v \<Rightarrow> v))"

text \<open>
  Spreading a string iterates its code points: a high surrogate followed by a low
  surrogate is one element.
\<close>

fun codePoints :: "jsstring \<Rightarrow> jsstring list" where
  "codePoints (a # b # s) =
     (if 0xD800 \<le> a \<and> a \<le> 0xDBFF \<and> 0xDC00 \<le> b \<and> b \<le> 0xDFFF
      then [a, b] # codePoints s else [a] # codePoints (b # s))"
| "codePoints [a] = [[a]]"
| "codePoints [] = []"

text \<open>
  \<open>history.slice(0, 49)\<close> exists on arrays and on strings; on any other value the call
  raises a \<open>TypeError\<close>, which the \<open>catch\<close> logs, and nothing is written.
\<close>

definition saveGenerationToHistory :: "JSON \<Rightarrow> json \<Rightarrow> localStorage \<Rightarrow> localStorage" where
  "saveGenerationToHistory J generation store =
     (case getGenerationHistory J store of
        JArr history \<Rightarrow> Some (stringify J 0 (JArr (generation # take 49 history)))
      | JStr history \<Rightarrow>
          Some (stringify J 0 (JArr (generation # map JStr (codePoints (take 49 history)))))
      | _ \<Rightarrow> store)"




section \<open>The generation lifecycle tracker (\<open>useVideoGeneration\<close>)\<close>

record GenerationConfig =
  duration :: int
  aspectRatio :: jsstring
  style :: jsstring
  quality :: jsstring

text \<open>
  The timestamps are the texts of \<open>new Date().toISOString()\<close>, which the operations
  take as an input \<open>stamp\<close>.
\<close>

record Generation =
  gen_id :: jsstring
  prompt :: jsstring
  config :: GenerationConfig
  status :: status
  createdAt :: jsstring
  completedAt :: "jsstring option"
  videoUrl :: "jsstring option"
  error :: "jsstring option"
  progress :: real
  taskId :: "jsstring option"

text \<open>
  The JSON value of a generation, as \<open>JSON.stringify\<close> sees it: members that are
  \<open>undefined\<close> are left out.
\<close>

definition status_name :: "status \<Rightarrow> jsstring" where
  "status_name st =
     (case st of processing \<Rightarrow> js ''processing'' | completed \<Rightarrow> js ''completed''
      | failed \<Rightarrow> js ''failed'')"

definition optional_member :: "string \<Rightarrow> jsstring option \<Rightarrow> (jsstring \<times> json) list" where
  "optional_member k v = (case v of None \<Rightarrow> [] | Some s \<Rightarrow> [(js k, JStr s)])"

definition GenerationConfig_json :: "GenerationConfig \<Rightarrow> json" where
  "GenerationConfig_json c =
     JObj [(js ''duration'', JNum (real_of_int (duration c))),
           (js ''aspectRatio'', JStr (aspectRatio c)),
           (js ''style'', JStr (style c)),
           (js ''quality'', JStr (quality c))]"

definition Generation_json :: "Generation \<Rightarrow> json" where
  "Generation_json g =
     JObj ([(js ''id'', JStr (gen_id g)),
            (js ''prompt'', JStr (prompt g)),
            (js ''config'', GenerationConfig_json (config g)),
            (js ''status'', JStr (status_name (status g))),
            (js ''createdAt'', JStr (createdAt g)),
            (js ''progress'', JNum (progress g))]
           @ optional_member ''taskId'' (taskId g)
           @ optional_member ''videoUrl'' (videoUrl g)
           @ optional_member ''error'' (error g)
           @ optional_member ''completedAt'' (completedAt g))"

text \<open>
  The state of the hook: its three \<open>useState\<close> cells and the persisted history. Two
  more components record what the event loop still holds: the generations whose
  \<open>generateVideo\<close> call is suspended at \<open>await\<close>, and the identifiers for which a
  \<open>pollForCompletion\<close> timer is pending.
\<close>

record hook_state =
  activeGenerations :: "Generation list"
  generationHistory :: "Generation list"
  isGenerating :: bool
  storage :: localStorage
  awaiting :: "Generation list"
  timers :: "jsstring list"

text \<open>
  On mount the history is loaded from the store; the stored value is cast to
  \<open>Generation[]\<close> unchecked, so the loaded list \<open>loaded\<close> is an input.
\<close>

definition mount :: "Generation list \<Rightarrow> localStorage \<Rightarrow> hook_state" where
  "mount loaded store =
     \<lparr> activeGenerations = [], generationHistory = loaded, isGenerating = False,
       storage = store, awaiting = [], timers = [] \<rparr>"

subsection \<open>The progress ticker\<close>

text \<open>
  One firing of the 3000 ms interval. \<open>rnd i\<close> is the value of \<open>Math.random()\<close> drawn for
  the entry at position \<open>i\<close>.
\<close>

definition tickOne :: "real \<Rightarrow> Generation \<Rightarrow> Generation" where
  "tickOne r gen =
     (if status gen = processing \<and> progress gen < 90
      then (let increment = r * 8 + 2;
                newProgress = min (progress gen + increment) 90
            in gen \<lparr> progress := newProgress \<rparr>)
      else gen)"

fun tickAll :: "(nat \<Rightarrow> real) \<Rightarrow> Generation list \<Rightarrow> Generation list" where
  "tickAll rnd [] = []"
| "tickAll rnd (gen # gens) = tickOne (rnd 0) gen # tickAll (\<lambda>i. rnd (Suc i)) gens"

definition progressTick :: "(nat \<Rightarrow> real) \<Rightarrow> hook_state \<Rightarrow> hook_state" where
  "progressTick rnd s = s \<lparr> activeGenerations := tickAll rnd (activeGenerations s) \<rparr>"

subsection \<open>Starting a generation\<close>

definition generateUniqueId :: "nat \<Rightarrow> jsstring \<Rightarrow> jsstring" where
  "generateUniqueId now r36 = js ''gen_'' @ decimal now @ js ''_'' @ substr r36 2 9"

text \<open>
  \<open>generateVideo\<close> up to its \<open>await\<close>: the new generation is built from the trimmed
  prompt and appended to the active list.
\<close>

definition newGeneration :: "nat \<Rightarrow> jsstring \<Rightarrow> jsstring \<Rightarrow> jsstring \<Rightarrow> GenerationConfig \<Rightarrow> Generation" where
  "newGeneration now r36 stamp p c =
     \<lparr> gen_id = generateUniqueId now r36, prompt = trim p, config = c,
       status = processing, createdAt = stamp, completedAt = None, videoUrl = None,
       error = None, progress = 0, taskId = None \<rparr>"

definition generateVideo_begin ::
  "nat \<Rightarrow> jsstring \<Rightarrow> jsstring \<Rightarrow> jsstring \<Rightarrow> GenerationConfig \<Rightarrow> hook_state \<Rightarrow> hook_state" where
  "generateVideo_begin now r36 stamp p c s =
     (let generation = newGeneration now r36 stamp p c
      in s \<lparr> activeGenerations := activeGenerations s @ [generation],
             isGenerating := True,
             awaiting := awaiting s @ [generation] \<rparr>)"

definition requestOf :: "Generation \<Rightarrow> VideoGenerationRequest" where
  "requestOf generation =
     \<lparr> req_prompt = Some (prompt generation),
       req_duration = duration (config generation),
       req_aspectRatio = aspectRatio (config generation),
       req_style = style (config generation),
       req_quality = quality (config generation) \<rparr>"

subsection \<open>The continuation of \<open>generateVideo\<close> after \<open>await\<close>\<close>

text \<open>
  Calling \<open>pollForCompletion\<close> arms a one-shot timer for the identifier; the delay of
  5 to 10 seconds is not part of the model, a pending timer may fire at any later step.
\<close>

definition pollForCompletion :: "jsstring \<Rightarrow> hook_state \<Rightarrow> hook_state" where
  "pollForCompletion generationId s = s \<lparr> timers := timers s @ [generationId] \<rparr>"

text \<open>
  \<open>generation\<close> is the record captured by the closure when the call began, \<open>outcome\<close>
  what \<open>fetch\<close> did, \<open>stamp\<close> the time of the terminal transition. The inner value is
  the \<open>try\<close> block (\<open>Inl\<close>: it threw), followed by \<open>catch\<close> and \<open>finally\<close>.
\<close>

definition generateVideo_resume ::
  "JSON \<Rightarrow> jsstring \<Rightarrow> Generation \<Rightarrow> VideoGenerationResponse fetch_outcome \<Rightarrow> hook_state
     \<Rightarrow> bool \<times> hook_state" where
  "generateVideo_resume J stamp generation outcome s =
     (let attempt =
        (case VideoGenerationAPI_generateVideo (requestOf generation) outcome of
           Inl e \<Rightarrow> Inl e
         | Inr response \<Rightarrow>
             if success response \<and> res_status response = Some completed
                \<and> truthy (res_videoUrl response)
             then
               (let completedGeneration = generation \<lparr> status := completed,
                      videoUrl := res_videoUrl response, completedAt := Some stamp,
                      progress := 100 \<rparr>
                in Inr (True,
                     s \<lparr> activeGenerations :=
                           filter (\<lambda>g. gen_id g \<noteq> gen_id generation) (activeGenerations s),
                         generationHistory := completedGeneration # generationHistory s,
                         storage := saveGenerationToHistory J
                                      (Generation_json completedGeneration) (storage s) \<rparr>))
             else if success response \<and> res_status response = Some processing
             then
               Inr (True,
                 pollForCompletion (gen_id generation)
                   (s \<lparr> activeGenerations :=
                          map (\<lambda>g. if gen_id g = gen_id generation
                                    then g \<lparr> taskId := res_taskId response, progress := 5 \<rparr>
                                    else g)
                              (activeGenerations s) \<rparr>))
             else Inl (Error (if truthy (res_error response) then the (res_error response)
                              else js ''Generation failed'')));
          outcome' =
        (case attempt of
           Inr done \<Rightarrow> done
         | Inl e \<Rightarrow>
             (let failedGeneration = generation \<lparr> status := failed,
                    error := Some (messageOr (js ''Unknown error'') e),
                    completedAt := Some stamp, progress := 0 \<rparr>
              in (False,
                   s \<lparr> activeGenerations :=
                         filter (\<lambda>g. gen_id g \<noteq> gen_id generation) (activeGenerations s),
                       generationHistory := failedGeneration # generationHistory s,
                       storage := saveGenerationToHistory J
                                    (Generation_json failedGeneration) (storage s) \<rparr>)))
      in (fst outcome', (snd outcome') \<lparr> isGenerating := False \<rparr>))"

subsection \<open>The simulated completion, cancellation and the remaining actions\<close>

definition placeholderVideoUrl :: jsstring where
  "placeholderVideoUrl = js (''https://storage.googleapis.com/''
     @ ''workspace-0f70711f-8b4e-4d94-86f1-2a93ccde5887/image/''
     @ ''eb71a242-4475-492a-b448-b8cb1f9c56af.png'')"

text \<open>The callback that the timer of \<open>pollForCompletion\<close> runs.\<close>

definition pollForCompletion_fire :: "JSON \<Rightarrow> jsstring \<Rightarrow> jsstring \<Rightarrow> hook_state \<Rightarrow> hook_state" where
  "pollForCompletion_fire J stamp generationId s =
     (case find (\<lambda>g. gen_id g = generationId) (activeGenerations s) of
        None \<Rightarrow> s
      | Some generation \<Rightarrow>
          (let completedGeneration = generation \<lparr> status := completed,
                 videoUrl := Some placeholderVideoUrl, completedAt := Some stamp,
                 progress := 100 \<rparr>
           in s \<lparr> generationHistory := completedGeneration # generationHistory s,
                  storage := saveGenerationToHistory J
                               (Generation_json completedGeneration) (storage s),
                  activeGenerations :=
                    filter (\<lambda>g. gen_id g \<noteq> generationId) (activeGenerations s) \<rparr>))"

definition cancelGeneration :: "JSON \<Rightarrow> jsstring \<Rightarrow> jsstring \<Rightarrow> hook_state \<Rightarrow> hook_state" where
  "cancelGeneration J stamp ident s =
     (case find (\<lambda>g. gen_id g = ident) (activeGenerations s) of
        None \<Rightarrow> s
      | Some generation \<Rightarrow>
          (let cancelledGeneration = generation \<lparr> status := failed,
                 error := Some (js ''Cancelled by user''), completedAt := Some stamp \<rparr>
           in s \<lparr> generationHistory := cancelledGeneration # generationHistory s,
                  storage := saveGenerationToHistory J
                               (Generation_json cancelledGeneration) (storage s),
                  activeGenerations :=
                    filter (\<lambda>g. gen_id g \<noteq> ident) (activeGenerations s) \<rparr>))"

definition retryGeneration_begin ::
  "nat \<Rightarrow> jsstring \<Rightarrow> jsstring \<Rightarrow> Generation \<Rightarrow> hook_state \<Rightarrow> hook_state" where
  "retryGeneration_begin now r36 stamp generation s =
     generateVideo_begin now r36 stamp (prompt generation) (config generation) s"

definition clearHistory :: "hook_state \<Rightarrow> hook_state" where
  "clearHistory s = s \<lparr> generationHistory := [], storage := None \<rparr>"

definition getGenerationById :: "jsstring \<Rightarrow> hook_state \<Rightarrow> Generation option" where
  "getGenerationById ident s =
     find (\<lambda>g. gen_id g = ident) (activeGenerations s @ generationHistory s)"

definition getActiveCount :: "hook_state \<Rightarrow> nat" where
  "getActiveCount s = length (activeGenerations s)"

definition getCompletedCount :: "hook_state \<Rightarrow> nat" where
  "getCompletedCount s = length (filter (\<lambda>g. status g = completed) (generationHistory s))"

definition getFailedCount :: "hook_state \<Rightarrow> nat" where
  "getFailedCount s = length (filter (\<lambda>g. status g = failed) (generationHistory s))"

subsection \<open>The event loop\<close>

text \<open>
  Everything that can happen to a mounted hook: the interval fires; the user starts,
  retries or cancels a generation or clears the history; the \<open>fetch\<close> of a suspended
  call settles; a pending timer fires. \<open>Respond k\<close> and \<open>Fire k\<close> name the suspended
  call and the timer by position and do nothing when there is none.
\<close>

datatype event =
    Tick "nat \<Rightarrow> real"
  | Generate nat jsstring jsstring jsstring GenerationConfig
  | Retry nat jsstring jsstring Generation
  | Respond nat jsstring "VideoGenerationResponse fetch_outcome"
  | Fire nat jsstring
  | Cancel jsstring jsstring
  | ClearHistory

definition dropAt :: "nat \<Rightarrow> 'a list \<Rightarrow> 'a list" where
  "dropAt k xs = take k xs @ drop (Suc k) xs"

fun step :: "JSON \<Rightarrow> hook_state \<Rightarrow> event \<Rightarrow> hook_state" where
  "step J s (Tick rnd) = progressTick rnd s"
| "step J s (Generate now r36 stamp p c) = generateVideo_begin now r36 stamp p c s"
| "step J s (Retry now r36 stamp generation) = retryGeneration_begin now r36 stamp generation s"
| "step J s (Respond k stamp outcome) =
     (if k < length (awaiting s)
      then snd (generateVideo_resume J stamp (awaiting s ! k) outcome
                  (s \<lparr> awaiting := dropAt k (awaiting s) \<rparr>))
      else s)"
| "step J s (Fire k stamp) =
     (if k < length (timers s)
      then pollForCompletion_fire J stamp (timers s ! k) (s \<lparr> timers := dropAt k (timers s) \<rparr>)
      else s)"
| "step J s (Cancel ident stamp) = cancelGeneration J stamp ident s"
| "step J s ClearHistory = clearHistory s"

definition run :: "JSON \<Rightarrow> hook_state \<Rightarrow> event list \<Rightarrow> hook_state" where
  "run J s es = foldl (step J) s es"

text \<open>
  What holds of every entry of the active list and of every suspended generation in
  every state the hook reaches.
\<close>

definition unfinished :: "Generation \<Rightarrow> bool" where
  "unfinished g \<longleftrightarrow> status g = processing \<and> videoUrl g = None \<and> error g = None \<and> progress g \<le> 90"

definition tracker_inv :: "hook_state \<Rightarrow> bool" where
  "tracker_inv s \<longleftrightarrow> list_all unfinished (activeGenerations s) \<and> list_all unfinished (awaiting s)"

text \<open>
  A terminal record: the status has left \<open>processing\<close> and exactly one of the video URL
  and the error message is set.
\<close>

definition terminal :: "Generation \<Rightarrow> bool" where
  "terminal r \<longleftrightarrow> status r \<noteq> processing \<and> ((videoUrl r = None) \<noteq> (error r = None))"

text \<open>
  \<open>retired J s s' r\<close>: going from \<open>s\<close> to \<open>s'\<close>, the record \<open>r\<close> was put in front of the
  history, in memory and in the store, and no entry with its identifier is active.
\<close>

definition retired :: "JSON \<Rightarrow> hook_state \<Rightarrow> hook_state \<Rightarrow> Generation \<Rightarrow> bool" where
  "retired J s s' r \<longleftrightarrow>
     generationHistory s' = r # generationHistory s
     \<and> storage s' = saveGenerationToHistory J (Generation_json r) (storage s)
     \<and> gen_id r \<notin> set (map gen_id (activeGenerations s'))"

section \<open>The page and its components (\<open>HomePage\<close>, \<open>VideoGenerator\<close>, \<open>GenerationQueue\<close>)\<close>

text \<open>
  The page keeps its own two lists and hands three callbacks to the components; it
  does not use the hook.
\<close>

record page_state =
  page_active :: "Generation list"
  page_history :: "Generation list"

definition handleNewGeneration :: "Generation \<Rightarrow> page_state \<Rightarrow> page_state" where
  "handleNewGeneration generation p = p \<lparr> page_active := page_active p @ [generation] \<rparr>"

definition handleGenerationComplete :: "Generation \<Rightarrow> page_state \<Rightarrow> page_state" where
  "handleGenerationComplete completedGeneration p =
     p \<lparr> page_active :=
           filter (\<lambda>gen. gen_id gen \<noteq> gen_id completedGeneration) (page_active p),
         page_history := completedGeneration # page_history p \<rparr>"

definition handleGenerationError :: "Generation \<Rightarrow> page_state \<Rightarrow> page_state" where
  "handleGenerationError failedGeneration p =
     p \<lparr> page_active :=
           filter (\<lambda>gen. gen_id gen \<noteq> gen_id failedGeneration) (page_active p) \<rparr>"

text \<open>
  \<open>GenerationQueue.handleCancelGeneration\<close>; the queue's local list mirrors the page's
  active list.
\<close>

definition handleCancelGeneration :: "jsstring \<Rightarrow> jsstring \<Rightarrow> page_state \<Rightarrow> page_state" where
  "handleCancelGeneration stamp generationId p =
     (case find (\<lambda>g. gen_id g = generationId) (page_active p) of
        Some generation \<Rightarrow>
          handleGenerationError
            (generation \<lparr> status := failed, error := Some (js ''Cancelled by user''),
               completedAt := Some stamp \<rparr>) p
      | None \<Rightarrow> p)"

text \<open>
  \<open>VideoGenerator.handleGenerate\<close> up to its \<open>fetch\<close>: the prompt is checked, then the
  new generation is handed to the page.
\<close>

definition handleGenerate_begin ::
  "nat \<Rightarrow> jsstring \<Rightarrow> jsstring \<Rightarrow> jsstring \<Rightarrow> GenerationConfig \<Rightarrow> page_state
     \<Rightarrow> Generation option \<times> page_state" where
  "handleGenerate_begin now r36 stamp p c pg =
     (if trim p = [] then (None, pg)
      else if length p > 1000 then (None, pg)
      else (let generation =
                  \<lparr> gen_id = js ''gen_'' @ decimal now @ js ''_'' @ substr r36 2 9,
                    prompt = trim p, config = c, status = processing, createdAt = stamp,
                    completedAt = None, videoUrl = None, error = None, progress = 0,
                    taskId = None \<rparr>
            in (Some generation, handleNewGeneration generation pg)))"

definition componentPlaceholderUrl :: jsstring where
  "componentPlaceholderUrl = js (''https://storage.googleapis.com/''
     @ ''workspace-0f70711f-8b4e-4d94-86f1-2a93ccde5887/image/''
     @ ''89456a6b-66dd-4b55-8ed2-54af18d10554.png'')"

text \<open>
  The callback of the timer armed by \<open>VideoGenerator.pollForCompletion\<close>; \<open>p\<close> and \<open>c\<close>
  are the prompt and the settings of the form, the two stamps the two clock readings.
\<close>

definition VideoGenerator_pollForCompletion_fire ::
  "jsstring \<Rightarrow> jsstring \<Rightarrow> jsstring \<Rightarrow> jsstring \<Rightarrow> GenerationConfig \<Rightarrow> page_state \<Rightarrow> page_state" where
  "VideoGenerator_pollForCompletion_fire stamp1 stamp2 generationId p c pg =
     handleGenerationComplete
       \<lparr> gen_id = generationId, prompt = trim p, config = c, status = completed,
         createdAt = stamp1, completedAt = Some stamp2,
         videoUrl = Some componentPlaceholderUrl, error = None, progress = 100,
         taskId = None \<rparr> pg"

section \<open>Example inputs\<close>

text \<open>The request and the settings of the specification's scenario.\<close>

definition sunsetRequest :: VideoGenerationRequest where
  "sunsetRequest = \<lparr> req_prompt = Some (js ''A sunset''), req_duration = 10,
     req_aspectRatio = js ''16:9'', req_style = js ''cinematic'', req_quality = js ''standard'' \<rparr>"

definition sunsetConfig :: GenerationConfig where
  "sunsetConfig = \<lparr> duration = 10, aspectRatio = js ''16:9'', style = js ''cinematic'',
     quality = js ''standard'' \<rparr>"

text \<open>
  A codec for arrays of booleans, written as \<open>[\<close>, one letter \<open>t\<close> or \<open>f\<close> per
  element, \<open>]\<close>. On these arrays \<open>parse\<close> inverts \<open>stringify\<close>, and the empty text does
  not parse.
\<close>

definition flagsJSON :: JSON where
  "flagsJSON =
     \<lparr> parse = (\<lambda>t. case t of
                  [] \<Rightarrow> None
                | c # rest \<Rightarrow>
                    if c = 0x5B \<and> rest \<noteq> [] \<and> last rest = 0x5D
                       \<and> list_all (\<lambda>d. d = 0x74 \<or> d = 0x66) (butlast rest)
                    then Some (JArr (map (\<lambda>d. JBool (d = 0x74)) (butlast rest)))
                    else None),
       stringify = (\<lambda>n v. case v of
                  JArr xs \<Rightarrow> [0x5B] @ map (\<lambda>x. if x = JBool True then 0x74 else 0x66) xs @ [0x5D]
                | _ \<Rightarrow> js ''null'') \<rparr>"


text \<open>
  A run of the hook: a generation is started, the ticker fires once with the draw
  \<open>0.5\<close>, and then the proxy answers that the video is being processed
  (\<open>acceptedResponse\<close>; \<open>completedResponse\<close> is the reply of an immediate completion).
\<close>

definition sunsetGeneration :: Generation where
  "sunsetGeneration =
     newGeneration 1757189846270 (js ''0.4fzyo82mvyr'') (js ''2025-09-06T20:17:26.270Z'')
       (js ''A sunset'') sunsetConfig"

definition sunsetStarted :: hook_state where
  "sunsetStarted =
     generateVideo_begin 1757189846270 (js ''0.4fzyo82mvyr'') (js ''2025-09-06T20:17:26.270Z'')
       (js ''A sunset'') sunsetConfig (mount [] None)"

definition acceptedResponse :: VideoGenerationResponse where
  "acceptedResponse = emptyResponse \<lparr> success := True, res_status := Some processing,
     estimatedTime := Some 100, res_taskId := Some (js ''task_1757189849000_x1y2z3abc'') \<rparr>"

definition completedResponse :: VideoGenerationResponse where
  "completedResponse = emptyResponse \<lparr> success := True, res_status := Some completed,
     res_videoUrl := Some (js ''https://cdn.example.com/sunset.mp4'') \<rparr>"

definition sunsetTicked :: hook_state where
  "sunsetTicked = step flagsJSON sunsetStarted (Tick (\<lambda>i. 1 / 2))"

definition sunsetAccepted :: hook_state where
  "sunsetAccepted =
     step flagsJSON sunsetTicked
       (Respond 0 (js ''2025-09-06T20:17:29.000Z'') (Responds 200 (Inr acceptedResponse)))"

text \<open>The run goes on: the user cancels the generation, and later its timer fires.\<close>

definition sunsetCancelled :: hook_state where
  "sunsetCancelled =
     step flagsJSON sunsetAccepted (Cancel (gen_id sunsetGeneration) (js ''2025-09-06T20:17:30.000Z''))"

definition sunsetFired :: hook_state where
  "sunsetFired = step flagsJSON sunsetCancelled (Fire 0 (js ''2025-09-06T20:17:36.000Z''))"

text \<open>
  A run of the page: the same generation is started in the form, the user cancels it in
  the queue, and afterwards the timer of \<open>VideoGenerator.pollForCompletion\<close> fires.
\<close>

definition sunsetPage :: page_state where
  "sunsetPage =
     snd (handleGenerate_begin 1757189846270 (js ''0.4fzyo82mvyr'') (js ''2025-09-06T20:17:26.270Z'')
            (js ''A sunset'') sunsetConfig \<lparr> page_active = [], page_history = [] \<rparr>)"

definition sunsetPageCancelled :: page_state where
  "sunsetPageCancelled =
     handleCancelGeneration (js ''2025-09-06T20:17:28.000Z'') (gen_id sunsetGeneration) sunsetPage"

definition sunsetPageFired :: page_state where
  "sunsetPageFired =
     VideoGenerator_pollForCompletion_fire (js ''2025-09-06T20:17:32.000Z'')
       (js ''2025-09-06T20:17:32.000Z'') (gen_id sunsetGeneration) (js ''A sunset'') sunsetConfig
       sunsetPageCancelled"

section \<open>The tracker's invariant\<close>

lemma unfinished_tickOne: "unfinished g \<Longrightarrow> unfinished (tickOne r g)"
  by (simp add: unfinished_def tickOne_def Let_def)

lemma unfinished_tickAll: "list_all unfinished gs \<Longrightarrow> list_all unfinished (tickAll rnd gs)"
  by (induction gs arbitrary: rnd) (simp_all add: unfinished_tickOne)

lemma unfinished_newGeneration: "unfinished (newGeneration now r36 stamp p c)"
  by (simp add: unfinished_def newGeneration_def)

lemma list_all_dropAt: "list_all P xs \<Longrightarrow> list_all P (dropAt k xs)"
  by (auto simp: dropAt_def list_all_iff dest: in_set_takeD in_set_dropD)

lemma list_all_nth: "list_all P xs \<Longrightarrow> k < length xs \<Longrightarrow> P (xs ! k)"
  by (simp add: list_all_length)

lemma inv_mount: "tracker_inv (mount loaded store)"
  by (simp add: tracker_inv_def mount_def)

lemma inv_progressTick: "tracker_inv s \<Longrightarrow> tracker_inv (progressTick rnd s)"
  by (simp add: tracker_inv_def progressTick_def unfinished_tickAll)

lemma inv_begin: "tracker_inv s \<Longrightarrow> tracker_inv (generateVideo_begin now r36 stamp p c s)"
  by (simp add: tracker_inv_def generateVideo_begin_def Let_def unfinished_newGeneration)

lemma unfinished_accept:
  "unfinished g \<Longrightarrow> unfinished (g \<lparr> taskId := t, progress := 5 \<rparr>)"
  by (simp add: unfinished_def)

lemma unfinished_accept_map:
  "list_all unfinished gs \<Longrightarrow>
   list_all unfinished
     (map (\<lambda>g. if gen_id g = i then g \<lparr> taskId := t, progress := 5 \<rparr> else g) gs)"
  by (induction gs) (simp_all add: unfinished_accept)

lemma inv_resume:
  assumes "tracker_inv s"
  shows "tracker_inv (snd (generateVideo_resume J stamp generation outcome s))"
proof -
  from assms have a: "list_all unfinished (activeGenerations s)"
    and w: "list_all unfinished (awaiting s)"
    by (simp_all add: tracker_inv_def)
  have f: "list_all unfinished (filter (\<lambda>g. gen_id g \<noteq> gen_id generation) (activeGenerations s))"
    using a by (simp add: list_all_iff)
  have m: "list_all unfinished
             (map (\<lambda>g. if gen_id g = gen_id generation then g \<lparr> taskId := t, progress := 5 \<rparr> else g)
                (activeGenerations s))" for t
    using a by (rule unfinished_accept_map)
  show ?thesis
    using f m w
    by (simp add: generateVideo_resume_def tracker_inv_def Let_def pollForCompletion_def
        split: sum.splits)
qed

lemma inv_fire: "tracker_inv s \<Longrightarrow> tracker_inv (pollForCompletion_fire J stamp ident s)"
  by (simp add: pollForCompletion_fire_def tracker_inv_def Let_def list_all_iff split: option.splits)

lemma inv_cancel: "tracker_inv s \<Longrightarrow> tracker_inv (cancelGeneration J stamp ident s)"
  by (simp add: cancelGeneration_def tracker_inv_def Let_def list_all_iff split: option.splits)

lemma inv_clear: "tracker_inv s \<Longrightarrow> tracker_inv (clearHistory s)"
  by (simp add: clearHistory_def tracker_inv_def)

lemma inv_awaiting_update:
  "tracker_inv s \<Longrightarrow> tracker_inv (s \<lparr> awaiting := dropAt k (awaiting s) \<rparr>)"
  by (simp add: tracker_inv_def list_all_dropAt)

lemma inv_timers_update: "tracker_inv s \<Longrightarrow> tracker_inv (s \<lparr> timers := ts \<rparr>)"
  by (simp add: tracker_inv_def)

lemma inv_step: "tracker_inv s \<Longrightarrow> tracker_inv (step J s e)"
  by (cases e)
     (simp_all add: inv_progressTick inv_begin retryGeneration_begin_def inv_resume
        inv_awaiting_update inv_fire inv_timers_update inv_cancel inv_clear)

lemma inv_run: "tracker_inv s \<Longrightarrow> tracker_inv (run J s es)"
  unfolding run_def by (induction es arbitrary: s) (simp_all add: inv_step)

lemma inv_reachable: "tracker_inv (run J (mount loaded store) es)"
  by (simp add: inv_run inv_mount)

section \<open>Terminal transitions of the tracker\<close>

lemma find_active:
  "ident \<in> set (map gen_id gs) \<Longrightarrow> \<exists>g. find (\<lambda>g. gen_id g = ident) gs = Some g \<and> g \<in> set gs \<and> gen_id g = ident"
  by (induction gs) auto

lemma find_absent:
  "ident \<notin> set (map gen_id gs) \<Longrightarrow> find (\<lambda>g. gen_id g = ident) gs = None"
  by (induction gs) auto

lemma filter_removes: "ident \<notin> gen_id ` {x \<in> set gs. gen_id x \<noteq> ident}"
  by auto

lemma truthy_Some: "truthy v \<Longrightarrow> \<exists>y. v = Some y"
  by (cases v) simp_all

lemma api_generateVideo_total:
  "\<exists>r. VideoGenerationAPI_generateVideo request outcome = Inr r"
  by (simp add: VideoGenerationAPI_generateVideo_def split: sum.splits)

lemma resume_history_cases:
  "generationHistory (snd (generateVideo_resume J stamp generation outcome s)) = generationHistory s
   \<or> (\<exists>r. retired J s (snd (generateVideo_resume J stamp generation outcome s)) r
          \<and> (unfinished generation \<longrightarrow> terminal r))"
  by (auto simp: generateVideo_resume_def Let_def pollForCompletion_def retired_def terminal_def
      unfinished_def filter_removes split: sum.splits dest: truthy_Some)

lemma resume_settles:
  assumes "unfinished generation"
    and "VideoGenerationAPI_generateVideo (requestOf generation) outcome = Inr response"
    and "\<not> (success response \<and> res_status response = Some processing)"
  shows "\<exists>r. retired J s (snd (generateVideo_resume J stamp generation outcome s)) r
           \<and> terminal r \<and> gen_id r = gen_id generation
           \<and> (status r = completed \<longleftrightarrow> progress r = 100)
           \<and> (status r = completed \<longleftrightarrow>
                success response \<and> res_status response = Some completed
                \<and> truthy (res_videoUrl response))"
proof (cases "success response \<and> res_status response = Some completed \<and> truthy (res_videoUrl response)")
  case True
  then obtain u where "res_videoUrl response = Some u" by (cases "res_videoUrl response") auto
  with True assms show ?thesis
    by (simp add: generateVideo_resume_def Let_def retired_def terminal_def unfinished_def
        filter_removes)
next
  case False
  have 1: "(if success response \<and> res_status response = Some completed
               \<and> truthy (res_videoUrl response) then a else b) = b" for a b :: 'z
    by (rule if_not_P) (rule False)
  have 2: "(if success response \<and> res_status response = Some processing then a else b) = b"
    for a b :: 'z
    by (rule if_not_P) (rule assms(3))
  from assms(1,2) False show ?thesis
    by (simp add: generateVideo_resume_def Let_def retired_def terminal_def unfinished_def
        filter_removes 1 2 del: truthy.simps)
qed

lemma resume_accepts:
  assumes "VideoGenerationAPI_generateVideo (requestOf generation) outcome = Inr response"
    and "success response \<and> res_status response = Some processing"
  shows "generationHistory (snd (generateVideo_resume J stamp generation outcome s)) = generationHistory s
       \<and> storage (snd (generateVideo_resume J stamp generation outcome s)) = storage s
       \<and> activeGenerations (snd (generateVideo_resume J stamp generation outcome s))
           = map (\<lambda>g. if gen_id g = gen_id generation
                       then g \<lparr> taskId := res_taskId response, progress := 5 \<rparr> else g)
               (activeGenerations s)"
  using assms by (simp add: generateVideo_resume_def Let_def pollForCompletion_def)

lemma fire_completes:
  assumes "list_all unfinished (activeGenerations s)"
    and "ident \<in> set (map gen_id (activeGenerations s))"
  shows "\<exists>r. retired J s (pollForCompletion_fire J stamp ident s) r \<and> terminal r
           \<and> status r = completed \<and> progress r = 100 \<and> gen_id r = ident"
proof -
  from find_active [OF assms(2)] obtain g where
    g: "find (\<lambda>g. gen_id g = ident) (activeGenerations s) = Some g"
       "g \<in> set (activeGenerations s)" "gen_id g = ident" by blast
  from assms(1) g(2) have "unfinished g" by (simp add: list_all_iff)
  with g(1,3) show ?thesis
    by (simp add: pollForCompletion_fire_def Let_def retired_def terminal_def unfinished_def
        filter_removes)
qed

lemma fire_noop:
  "ident \<notin> set (map gen_id (activeGenerations s)) \<Longrightarrow> pollForCompletion_fire J stamp ident s = s"
  by (simp add: pollForCompletion_fire_def find_absent)

lemma cancel_fails:
  assumes "list_all unfinished (activeGenerations s)"
    and "ident \<in> set (map gen_id (activeGenerations s))"
  shows "\<exists>r. retired J s (cancelGeneration J stamp ident s) r \<and> terminal r
           \<and> status r = failed \<and> progress r \<le> 90 \<and> gen_id r = ident
           \<and> error r = Some (js ''Cancelled by user'')"
proof -
  from find_active [OF assms(2)] obtain g where
    g: "find (\<lambda>g. gen_id g = ident) (activeGenerations s) = Some g"
       "g \<in> set (activeGenerations s)" "gen_id g = ident" by blast
  from assms(1) g(2) have "unfinished g" by (simp add: list_all_iff)
  with g(1,3) show ?thesis
    by (simp add: cancelGeneration_def Let_def retired_def terminal_def unfinished_def
        filter_removes)
qed

lemma cancel_noop:
  "ident \<notin> set (map gen_id (activeGenerations s)) \<Longrightarrow> cancelGeneration J stamp ident s = s"
  by (simp add: cancelGeneration_def find_absent)

lemma retired_awaiting:
  "retired J (s \<lparr> awaiting := w \<rparr>) s' r = retired J s s' r"
  by (simp add: retired_def)

lemma retired_timers:
  "retired J (s \<lparr> timers := w \<rparr>) s' r = retired J s s' r"
  by (simp add: retired_def)

lemma step_history_cases:
  assumes "tracker_inv s"
  shows "generationHistory (step J s e) = generationHistory s \<or> e = ClearHistory
         \<or> (\<exists>r. retired J s (step J s e) r \<and> terminal r)"
proof (cases e)
  case (Tick rnd)
  then show ?thesis by (simp add: progressTick_def)
next
  case (Generate now r36 stamp p c)
  then show ?thesis by (simp add: generateVideo_begin_def Let_def)
next
  case (Retry now r36 stamp g)
  then show ?thesis by (simp add: retryGeneration_begin_def generateVideo_begin_def Let_def)
next
  case (Respond k stamp outcome)
  show ?thesis
  proof (cases "k < length (awaiting s)")
    case True
    with assms have u: "unfinished (awaiting s ! k)"
      by (simp add: tracker_inv_def list_all_length)
    from resume_history_cases [of J stamp "awaiting s ! k" outcome "s \<lparr> awaiting := dropAt k (awaiting s) \<rparr>"]
    show ?thesis using u True Respond by (auto simp: retired_awaiting)
  next
    case False
    with Respond show ?thesis by simp
  qed
next
  case (Fire k stamp)
  show ?thesis
  proof (cases "k < length (timers s) \<and> timers s ! k \<in> set (map gen_id (activeGenerations s))")
    case True
    from assms have "list_all unfinished (activeGenerations (s \<lparr> timers := dropAt k (timers s) \<rparr>))"
      by (simp add: tracker_inv_def)
    from fire_completes [OF this, of "timers s ! k" J stamp] True Fire
    show ?thesis by (auto simp: retired_timers)
  next
    case False
    with Fire show ?thesis by (auto simp: fire_noop)
  qed
next
  case (Cancel ident stamp)
  show ?thesis
  proof (cases "ident \<in> set (map gen_id (activeGenerations s))")
    case True
    from assms have "list_all unfinished (activeGenerations s)" by (simp add: tracker_inv_def)
    from cancel_fails [OF this True, of J stamp] Cancel show ?thesis by auto
  next
    case False
    with Cancel show ?thesis by (simp add: cancel_noop)
  qed
next
  case ClearHistory
  then show ?thesis by simp
qed

lemma step_record_progress:
  assumes inv: "tracker_inv s"
    and new: "generationHistory (step J s e) = r # generationHistory s"
  shows "status r = completed \<longleftrightarrow> progress r = 100"
proof -
  from inv have act: "list_all unfinished (activeGenerations s)"
    and wait: "list_all unfinished (awaiting s)" by (simp_all add: tracker_inv_def)
  show ?thesis
  proof (cases e)
    case (Tick rnd)
    with new show ?thesis by (simp add: progressTick_def)
  next
    case (Generate now r36 stamp p c)
    with new show ?thesis by (simp add: generateVideo_begin_def Let_def)
  next
    case (Retry now r36 stamp g)
    with new show ?thesis by (simp add: retryGeneration_begin_def generateVideo_begin_def Let_def)
  next
    case (Respond k stamp outcome)
    show ?thesis
    proof (cases "k < length (awaiting s)")
      case False
      with new Respond show ?thesis by simp
    next
      case True
      let ?g = "awaiting s ! k" and ?s = "s \<lparr> awaiting := dropAt k (awaiting s) \<rparr>"
      from wait True have u: "unfinished ?g" by (simp add: list_all_length)
      obtain response where api: "VideoGenerationAPI_generateVideo (requestOf ?g) outcome = Inr response"
        using api_generateVideo_total by blast
      show ?thesis
      proof (cases "success response \<and> res_status response = Some processing")
        case accepted: True
        from resume_accepts [OF api accepted, of J stamp ?s] new Respond True
        show ?thesis by simp
      next
        case settled: False
        from resume_settles [OF u api settled, of J ?s stamp] obtain r' where
          "retired J ?s (snd (generateVideo_resume J stamp ?g outcome ?s)) r'"
          "status r' = completed \<longleftrightarrow> progress r' = 100" by blast
        with new Respond True show ?thesis by (simp add: retired_def)
      qed
    qed
  next
    case (Fire k stamp)
    show ?thesis
    proof (cases "k < length (timers s) \<and> timers s ! k \<in> set (map gen_id (activeGenerations s))")
      case True
      from act have "list_all unfinished (activeGenerations (s \<lparr> timers := dropAt k (timers s) \<rparr>))"
        by simp
      from fire_completes [OF this, of "timers s ! k" J stamp] True obtain r' where
        "retired J (s \<lparr> timers := dropAt k (timers s) \<rparr>)
           (pollForCompletion_fire J stamp (timers s ! k) (s \<lparr> timers := dropAt k (timers s) \<rparr>)) r'"
        "status r' = completed" "progress r' = 100" by auto
      with new Fire True show ?thesis by (simp add: retired_def)
    next
      case False
      have "generationHistory (step J s (Fire k stamp)) = generationHistory s"
      proof (cases "k < length (timers s)")
        case True
        with False have "timers s ! k
            \<notin> set (map gen_id (activeGenerations (s \<lparr> timers := dropAt k (timers s) \<rparr>)))"
          by simp
        from fire_noop [OF this] True show ?thesis by simp
      qed simp
      with new Fire show ?thesis by simp
    qed
  next
    case (Cancel ident stamp)
    show ?thesis
    proof (cases "ident \<in> set (map gen_id (activeGenerations s))")
      case True
      from cancel_fails [OF act True, of J stamp] obtain r' where
        "retired J s (cancelGeneration J stamp ident s) r'" "status r' = failed" "progress r' \<le> 90"
        by blast
      with new Cancel show ?thesis by (simp add: retired_def)
    next
      case False
      with new Cancel show ?thesis by (simp add: cancel_noop)
    qed
  next
    case ClearHistory
    with new show ?thesis by (simp add: clearHistory_def)
  qed
qed

section \<open>The ticker\<close>

lemma tickAll_length: "length (tickAll rnd gs) = length gs"
  by (induction gs arbitrary: rnd) simp_all

lemma tickAll_nth: "i < length gs \<Longrightarrow> tickAll rnd gs ! i = tickOne (rnd i) (gs ! i)"
proof (induction gs arbitrary: rnd i)
  case Nil
  then show ?case by simp
next
  case (Cons g gs)
  then show ?case by (cases i) simp_all
qed

lemma tickOne_progress:
  "0 \<le> r \<Longrightarrow> progress g \<le> 90 \<Longrightarrow>
   progress g \<le> progress (tickOne r g) \<and> progress (tickOne r g) \<le> 90"
  by (simp add: tickOne_def Let_def)

section \<open>Identifiers\<close>

text \<open>
  The decimal text of a number has no underscore and determines the number, so an
  identifier \<open>gen_<clock>_<suffix>\<close> determines the clock reading and the suffix.
\<close>

lemma unat_digit: "d < 10 \<Longrightarrow> unat (digit d) = 48 + d"
  by (simp add: digit_def unat_word_ariths unat_of_nat)

lemma digit_inj: "d < 10 \<Longrightarrow> e < 10 \<Longrightarrow> digit d = digit e \<Longrightarrow> d = e"
  by (metis unat_digit add_left_cancel)

lemma digit_not_underscore: "d < 10 \<Longrightarrow> digit d \<noteq> 0x5F"
proof
  assume "d < 10" and "digit d = 0x5F"
  then have "48 + d = unat (0x5F :: 16 word)" by (simp add: unat_digit [symmetric])
  with \<open>d < 10\<close> show False by simp
qed

lemma decimal_unfold:
  "decimal n = (if n < 10 then [digit n] else decimal (n div 10) @ [digit (n mod 10)])"
  by (rule decimal.simps)

lemma decimal_no_underscore: "0x5F \<notin> set (decimal n)"
proof (induction n rule: decimal.induct)
  case (1 n)
  show ?case
  proof (cases "n < 10")
    case True
    then show ?thesis by (subst decimal_unfold) (simp add: digit_not_underscore [symmetric])
  next
    case False
    with 1 have "0x5F \<notin> set (decimal (n div 10))" by simp
    moreover have "digit (n mod 10) \<noteq> 0x5F" by (rule digit_not_underscore) simp
    ultimately show ?thesis using False
      by (subst decimal_unfold) auto
  qed
qed

lemma decimal_length_one: "length (decimal n) = 1 \<longleftrightarrow> n < 10"
proof (cases "n < 10")
  case True
  then show ?thesis by (subst decimal_unfold) simp
next
  case False
  have "decimal (n div 10) \<noteq> []" by (subst decimal_unfold) simp
  then have "length (decimal (n div 10)) \<noteq> 0" by simp
  with False show ?thesis by (subst decimal_unfold) (simp)
qed

lemma decimal_inj: "decimal n = decimal m \<Longrightarrow> n = m"
proof (induction n arbitrary: m rule: decimal.induct)
  case (1 n)
  show ?case
  proof (cases "n < 10")
    case True
    then have "length (decimal n) = 1" by (simp only: decimal_length_one)
    with "1.prems" have m: "m < 10" by (simp only: decimal_length_one [symmetric])
    from "1.prems" True m have "digit n = digit m"
      by (subst (asm) decimal_unfold, subst (asm) (2) decimal_unfold) simp
    with True m show ?thesis by (rule digit_inj)
  next
    case False
    then have "length (decimal n) \<noteq> 1" by (simp only: decimal_length_one) simp
    with "1.prems" have m: "\<not> m < 10" by (simp only: decimal_length_one [symmetric]) simp
    have n': "decimal n = decimal (n div 10) @ [digit (n mod 10)]"
      using False by (subst decimal_unfold) (simp)
    have m': "decimal m = decimal (m div 10) @ [digit (m mod 10)]"
      using m by (subst decimal_unfold) (simp)
    from "1.prems" n' m' have eq: "decimal (n div 10) = decimal (m div 10)"
      and d: "digit (n mod 10) = digit (m mod 10)" by simp_all
    from "1.IH" [OF False eq] have "n div 10 = m div 10" .
    moreover have "n mod 10 = m mod 10" by (rule digit_inj [OF _ _ d]) simp_all
    ultimately have "n div 10 * 10 + n mod 10 = m div 10 * 10 + m mod 10" by simp
    then show ?thesis by (simp only: div_mult_mod_eq)
  qed
qed

lemma split_at_first:
  "x \<notin> set xs \<Longrightarrow> x \<notin> set xs' \<Longrightarrow> xs @ x # ys = xs' @ x # ys'
   \<Longrightarrow> xs = xs' \<and> ys = ys'"
proof (induction xs arbitrary: xs')
  case Nil
  then show ?case by (cases xs') auto
next
  case (Cons a xs)
  then show ?case by (cases xs') auto
qed

lemma generateUniqueId_inj:
  assumes "generateUniqueId t r = generateUniqueId t' r'"
  shows "t = t' \<and> substr r 2 9 = substr r' 2 9"
proof -
  have u: "js ''_'' = [0x5F]" by (simp add: js_def)
  from assms have "decimal t @ 0x5F # substr r 2 9 = decimal t' @ 0x5F # substr r' 2 9"
    by (simp add: generateUniqueId_def u)
  then have "decimal t = decimal t' \<and> substr r 2 9 = substr r' 2 9"
    by (rule split_at_first [OF decimal_no_underscore decimal_no_underscore])
  then show ?thesis by (auto dest: decimal_inj)
qed

section \<open>The example runs\<close>

lemma sunsetStarted_run:
  "sunsetStarted = run flagsJSON (mount [] None)
     [Generate 1757189846270 (js ''0.4fzyo82mvyr'') (js ''2025-09-06T20:17:26.270Z'')
        (js ''A sunset'') sunsetConfig]"
  by (simp add: run_def sunsetStarted_def)

lemma sunsetStarted_active: "activeGenerations sunsetStarted = [sunsetGeneration]"
  by (simp add: sunsetStarted_def sunsetGeneration_def generateVideo_begin_def mount_def Let_def)

lemma sunsetStarted_history: "generationHistory sunsetStarted = []"
  by (simp add: sunsetStarted_def generateVideo_begin_def mount_def Let_def)

lemma sunsetStarted_awaiting: "awaiting sunsetStarted = [sunsetGeneration]"
  by (simp add: sunsetStarted_def sunsetGeneration_def generateVideo_begin_def mount_def Let_def)

lemma sunsetGeneration_fields:
  "status sunsetGeneration = processing" "progress sunsetGeneration = 0"
  "videoUrl sunsetGeneration = None" "error sunsetGeneration = None"
  "gen_id sunsetGeneration = generateUniqueId 1757189846270 (js ''0.4fzyo82mvyr'')"
  "prompt sunsetGeneration = trim (js ''A sunset'')"
  by (simp_all add: sunsetGeneration_def newGeneration_def)

lemma trim_sunset: "trim (js ''A sunset'') = js ''A sunset''"
  by (simp add: trim_def js_def isWhiteSpace_def)

lemma sunsetTicked_active:
  "activeGenerations sunsetTicked = [sunsetGeneration \<lparr> progress := 6 \<rparr>]"
  by (simp add: sunsetTicked_def progressTick_def sunsetStarted_active tickOne_def
      sunsetGeneration_fields Let_def)

lemma sunsetTicked_awaiting: "awaiting sunsetTicked = [sunsetGeneration]"
  by (simp add: sunsetTicked_def progressTick_def sunsetStarted_awaiting)

lemma sunsetAccepted_active:
  "activeGenerations sunsetAccepted
     = [sunsetGeneration \<lparr> progress := 5, taskId := Some (js ''task_1757189849000_x1y2z3abc'') \<rparr>]"
  by (simp add: sunsetAccepted_def sunsetTicked_awaiting sunsetTicked_active
      generateVideo_resume_def VideoGenerationAPI_generateVideo_def fetchJson_def response_ok_def
      acceptedResponse_def emptyResponse_def pollForCompletion_def Let_def)

lemma sunsetTicked_rest: "timers sunsetTicked = []" "generationHistory sunsetTicked = []"
  by (simp_all add: sunsetTicked_def progressTick_def sunsetStarted_def generateVideo_begin_def
      mount_def Let_def)

lemma sunsetAccepted_rest:
  "timers sunsetAccepted = [gen_id sunsetGeneration]" "generationHistory sunsetAccepted = []"
  by (simp_all add: sunsetAccepted_def sunsetTicked_awaiting sunsetTicked_rest
      generateVideo_resume_def VideoGenerationAPI_generateVideo_def fetchJson_def response_ok_def
      acceptedResponse_def emptyResponse_def pollForCompletion_def Let_def)

lemma sunsetCancelled_lists:
  "activeGenerations sunsetCancelled = []"
  "map gen_id (generationHistory sunsetCancelled) = [gen_id sunsetGeneration]"
  "map status (generationHistory sunsetCancelled) = [failed]"
  "timers sunsetCancelled = [gen_id sunsetGeneration]"
  by (simp_all add: sunsetCancelled_def cancelGeneration_def sunsetAccepted_active
      sunsetAccepted_rest Let_def)

lemma sunsetFired_eq: "sunsetFired = sunsetCancelled \<lparr> timers := [] \<rparr>"
proof -
  have "gen_id sunsetGeneration
      \<notin> set (map gen_id (activeGenerations (sunsetCancelled \<lparr> timers := [] \<rparr>)))"
    by (simp add: sunsetCancelled_lists)
  from fire_noop [OF this] show ?thesis
    by (simp add: sunsetFired_def sunsetCancelled_lists dropAt_def)
qed

lemma sunsetTicked_run:
  "sunsetTicked = run flagsJSON (mount [] None)
     [Generate 1757189846270 (js ''0.4fzyo82mvyr'') (js ''2025-09-06T20:17:26.270Z'')
        (js ''A sunset'') sunsetConfig,
      Tick (\<lambda>i. 1 / 2)]"
  by (simp add: run_def sunsetTicked_def sunsetStarted_def)

lemma sunsetAccepted_run:
  "sunsetAccepted = run flagsJSON (mount [] None)
     [Generate 1757189846270 (js ''0.4fzyo82mvyr'') (js ''2025-09-06T20:17:26.270Z'')
        (js ''A sunset'') sunsetConfig,
      Tick (\<lambda>i. 1 / 2),
      Respond 0 (js ''2025-09-06T20:17:29.000Z'') (Responds 200 (Inr acceptedResponse))]"
  unfolding sunsetAccepted_def sunsetTicked_run run_def by (simp only: foldl.simps)

lemma api_ok: "VideoGenerationAPI_generateVideo request (Responds 200 (Inr response)) = Inr response"
  by (simp add: VideoGenerationAPI_generateVideo_def fetchJson_def response_ok_def)

lemma sunsetPage_active: "page_active sunsetPage = [sunsetGeneration]"
proof -
  have "trim (js ''A sunset'') \<noteq> []" by (simp add: trim_sunset) (simp add: js_def)
  moreover have "length (js ''A sunset'') \<le> 1000" by (simp add: js_def)
  ultimately show ?thesis
    by (simp add: sunsetPage_def handleGenerate_begin_def handleNewGeneration_def Let_def
        sunsetGeneration_def newGeneration_def generateUniqueId_def)
qed

lemma sunsetPage_history: "page_history sunsetPage = []"
  by (simp add: sunsetPage_def handleGenerate_begin_def handleNewGeneration_def Let_def)

lemma sunsetPageCancelled_eq: "sunsetPageCancelled = \<lparr> page_active = [], page_history = [] \<rparr>"
  by (simp add: sunsetPageCancelled_def handleCancelGeneration_def handleGenerationError_def
      sunsetPage_active sunsetPage_history)

section \<open>Terminal records\<close>

text \<open>
  Claim C1. In every state \<open>s\<close> that the hook reaches from its mount, each way in which a
  generation reaches a terminal status puts one record \<open>r\<close> in front of the history (in
  memory and in the store), with a status other than \<open>processing\<close> and exactly one of
  \<open>videoUrl\<close> and \<open>error\<close> set, and leaves no entry with that identifier in the active
  list: a reply to the submission that is not a \<open>processing\<close> reply (completed or
  failed), the firing of the completion timer for an active identifier (completed), and
  the cancellation of an active identifier (failed). Every step of the hook other than
  clearing the history either leaves the history as it is or is of this kind, and every
  entry of the active list has status \<open>processing\<close>.
\<close>

theorem terminal_records:
  assumes "s = run J (mount loaded store) es"
  shows "(\<forall>k stamp outcome response.
            k < length (awaiting s)
            \<and> VideoGenerationAPI_generateVideo (requestOf (awaiting s ! k)) outcome = Inr response
            \<and> \<not> (success response \<and> res_status response = Some processing)
          \<longrightarrow> (\<exists>r. retired J s (step J s (Respond k stamp outcome)) r \<and> terminal r
                   \<and> gen_id r = gen_id (awaiting s ! k)))
       \<and> (\<forall>k stamp.
            k < length (timers s) \<and> timers s ! k \<in> set (map gen_id (activeGenerations s))
          \<longrightarrow> (\<exists>r. retired J s (step J s (Fire k stamp)) r \<and> terminal r
                   \<and> status r = completed \<and> gen_id r = timers s ! k))
       \<and> (\<forall>ident stamp.
            ident \<in> set (map gen_id (activeGenerations s))
          \<longrightarrow> (\<exists>r. retired J s (step J s (Cancel ident stamp)) r \<and> terminal r
                   \<and> status r = failed \<and> gen_id r = ident))
       \<and> (\<forall>e. generationHistory (step J s e) = generationHistory s \<or> e = ClearHistory
               \<or> (\<exists>r. retired J s (step J s e) r \<and> terminal r))
       \<and> list_all (\<lambda>g. status g = processing) (activeGenerations s)"
proof -
  from assms have inv: "tracker_inv s" by (simp add: inv_reachable)
  then have act: "list_all unfinished (activeGenerations s)"
    and wait: "list_all unfinished (awaiting s)" by (simp_all add: tracker_inv_def)
  have respond: "\<exists>r. retired J s (step J s (Respond k stamp outcome)) r \<and> terminal r
                   \<and> gen_id r = gen_id (awaiting s ! k)"
    if "k < length (awaiting s)"
      and "VideoGenerationAPI_generateVideo (requestOf (awaiting s ! k)) outcome = Inr response"
      and "\<not> (success response \<and> res_status response = Some processing)"
    for k stamp outcome response
  proof -
    from wait that(1) have "unfinished (awaiting s ! k)" by (simp add: list_all_length)
    from resume_settles [OF this that(2,3), of J "s \<lparr> awaiting := dropAt k (awaiting s) \<rparr>" stamp]
    show ?thesis using that(1) by (auto simp: retired_awaiting)
  qed
  have fire: "\<exists>r. retired J s (step J s (Fire k stamp)) r \<and> terminal r
                   \<and> status r = completed \<and> gen_id r = timers s ! k"
    if "k < length (timers s)" and "timers s ! k \<in> set (map gen_id (activeGenerations s))"
    for k stamp
  proof -
    from act have "list_all unfinished (activeGenerations (s \<lparr> timers := dropAt k (timers s) \<rparr>))"
      by simp
    from fire_completes [OF this, of "timers s ! k" J stamp] that
    show ?thesis by (auto simp: retired_timers)
  qed
  have cancel: "\<exists>r. retired J s (step J s (Cancel ident stamp)) r \<and> terminal r
                   \<and> status r = failed \<and> gen_id r = ident"
    if "ident \<in> set (map gen_id (activeGenerations s))" for ident stamp
    using cancel_fails [OF act that, of J stamp] by auto
  have any: "generationHistory (step J s e) = generationHistory s \<or> e = ClearHistory
               \<or> (\<exists>r. retired J s (step J s e) r \<and> terminal r)" for e
    by (rule step_history_cases [OF inv])
  have proc: "list_all (\<lambda>g. status g = processing) (activeGenerations s)"
    using act by (simp add: list_all_iff unfinished_def)
  from respond fire cancel any proc show ?thesis by blast
qed

theorem terminal_records_witness:
  "(\<exists>r. retired flagsJSON sunsetStarted
          (step flagsJSON sunsetStarted
             (Respond 0 (js ''2025-09-06T20:17:29.000Z'') (Responds 200 (Inr completedResponse)))) r
        \<and> terminal r \<and> gen_id r = gen_id (awaiting sunsetStarted ! 0))
   \<and> (\<exists>r. retired flagsJSON sunsetAccepted
          (step flagsJSON sunsetAccepted (Fire 0 (js ''2025-09-06T20:17:36.000Z''))) r
        \<and> terminal r \<and> status r = completed \<and> gen_id r = timers sunsetAccepted ! 0)
   \<and> (\<exists>r. retired flagsJSON sunsetStarted
          (step flagsJSON sunsetStarted
             (Cancel (gen_id sunsetGeneration) (js ''2025-09-06T20:17:30.000Z''))) r
        \<and> terminal r \<and> status r = failed \<and> gen_id r = gen_id sunsetGeneration)"
proof -
  have suspended: "0 < length (awaiting sunsetStarted)" by (simp add: sunsetStarted_awaiting)
  have reply: "VideoGenerationAPI_generateVideo (requestOf (awaiting sunsetStarted ! 0))
      (Responds 200 (Inr completedResponse)) = Inr completedResponse" by (rule api_ok)
  have settled: "\<not> (success completedResponse \<and> res_status completedResponse = Some processing)"
    by (simp add: completedResponse_def)
  have pending: "0 < length (timers sunsetAccepted)" by (simp add: sunsetAccepted_rest)
  have active: "timers sunsetAccepted ! 0 \<in> set (map gen_id (activeGenerations sunsetAccepted))"
    by (simp add: sunsetAccepted_rest sunsetAccepted_active)
  have member: "gen_id sunsetGeneration \<in> set (map gen_id (activeGenerations sunsetStarted))"
    by (simp add: sunsetStarted_active)
  from terminal_records [OF sunsetStarted_run] suspended reply settled
  have 1: "\<exists>r. retired flagsJSON sunsetStarted
          (step flagsJSON sunsetStarted
             (Respond 0 (js ''2025-09-06T20:17:29.000Z'') (Responds 200 (Inr completedResponse)))) r
        \<and> terminal r \<and> gen_id r = gen_id (awaiting sunsetStarted ! 0)" by blast
  from terminal_records [OF sunsetAccepted_run] pending active
  have 2: "\<exists>r. retired flagsJSON sunsetAccepted
          (step flagsJSON sunsetAccepted (Fire 0 (js ''2025-09-06T20:17:36.000Z''))) r
        \<and> terminal r \<and> status r = completed \<and> gen_id r = timers sunsetAccepted ! 0" by blast
  from terminal_records [OF sunsetStarted_run] member
  have 3: "\<exists>r. retired flagsJSON sunsetStarted
          (step flagsJSON sunsetStarted
             (Cancel (gen_id sunsetGeneration) (js ''2025-09-06T20:17:30.000Z''))) r
        \<and> terminal r \<and> status r = failed \<and> gen_id r = gen_id sunsetGeneration" by blast
  from 1 2 3 show ?thesis by (intro conjI)
qed

section \<open>Starting a generation\<close>

text \<open>
  Claim C2, as amended. For every request whose trimmed prompt is not empty,
  \<open>generateVideo\<close> at once appends exactly one new generation to the active list, with
  status \<open>processing\<close>, progress 0 and the identifier \<open>gen_<clock>_<suffix>\<close>; the history
  is unchanged. That identifier differs from every identifier of the active list and the
  history that was made from another clock reading or another random suffix.
\<close>

theorem start_adds_generation:
  assumes "trim p \<noteq> []"
    and "\<forall>g \<in> set (activeGenerations s @ generationHistory s).
           \<exists>t r. gen_id g = generateUniqueId t r \<and> (t \<noteq> now \<or> substr r 2 9 \<noteq> substr r36 2 9)"
  shows "\<exists>g. activeGenerations (generateVideo_begin now r36 stamp p c s) = activeGenerations s @ [g]
           \<and> generationHistory (generateVideo_begin now r36 stamp p c s) = generationHistory s
           \<and> status g = processing \<and> progress g = 0 \<and> prompt g = trim p \<and> config g = c
           \<and> gen_id g = generateUniqueId now r36
           \<and> gen_id g \<notin> set (map gen_id (activeGenerations s @ generationHistory s))"
proof -
  have fresh: "generateUniqueId now r36 \<notin> set (map gen_id (activeGenerations s @ generationHistory s))"
  proof
    assume "generateUniqueId now r36 \<in> set (map gen_id (activeGenerations s @ generationHistory s))"
    then have "\<exists>g \<in> set (activeGenerations s @ generationHistory s).
        generateUniqueId now r36 = gen_id g" by (simp only: set_map image_iff)
    then obtain g where g: "g \<in> set (activeGenerations s @ generationHistory s)"
      and same: "gen_id g = generateUniqueId now r36" by (elim bexE) simp
    from assms(2) g obtain t r where
      made: "gen_id g = generateUniqueId t r" and other: "t \<noteq> now \<or> substr r 2 9 \<noteq> substr r36 2 9"
      by blast
    from same made have "generateUniqueId t r = generateUniqueId now r36" by simp
    then have "t = now \<and> substr r 2 9 = substr r36 2 9" by (rule generateUniqueId_inj)
    with other show False by simp
  qed
  have "activeGenerations (generateVideo_begin now r36 stamp p c s)
          = activeGenerations s @ [newGeneration now r36 stamp p c]"
    and "generationHistory (generateVideo_begin now r36 stamp p c s) = generationHistory s"
    by (simp_all add: generateVideo_begin_def Let_def)
  moreover have "status (newGeneration now r36 stamp p c) = processing"
    "progress (newGeneration now r36 stamp p c) = 0"
    "prompt (newGeneration now r36 stamp p c) = trim p"
    "config (newGeneration now r36 stamp p c) = c"
    "gen_id (newGeneration now r36 stamp p c) = generateUniqueId now r36"
    by (simp_all add: newGeneration_def)
  ultimately show ?thesis using fresh by metis
qed

theorem start_adds_generation_witness:
  "\<exists>g. activeGenerations (generateVideo_begin 1757189846271 (js ''0.4fzyo82mvyr'')
            (js ''2025-09-06T20:17:26.271Z'') (js ''A sunset'') sunsetConfig sunsetStarted)
          = activeGenerations sunsetStarted @ [g]
      \<and> status g = processing \<and> progress g = 0
      \<and> gen_id g \<notin> set (map gen_id (activeGenerations sunsetStarted @ generationHistory sunsetStarted))"
proof -
  have valid: "trim (js ''A sunset'') \<noteq> []" by (simp add: trim_sunset) (simp add: js_def)
  have others: "\<forall>g \<in> set (activeGenerations sunsetStarted @ generationHistory sunsetStarted).
           \<exists>t r. gen_id g = generateUniqueId t r
             \<and> (t \<noteq> 1757189846271 \<or> substr r 2 9 \<noteq> substr (js ''0.4fzyo82mvyr'') 2 9)"
  proof -
    have "\<exists>t r. gen_id sunsetGeneration = generateUniqueId t r
             \<and> (t \<noteq> 1757189846271 \<or> substr r 2 9 \<noteq> substr (js ''0.4fzyo82mvyr'') 2 9)"
      by (rule exI [of _ 1757189846270], rule exI [of _ "js ''0.4fzyo82mvyr''"])
         (simp add: sunsetGeneration_fields)
    then show ?thesis by (simp add: sunsetStarted_active sunsetStarted_history)
  qed
  from start_adds_generation [OF valid others, of "js ''2025-09-06T20:17:26.271Z''" sunsetConfig]
  show ?thesis by blast
qed

text \<open>
  The claim as stated fails: two calls that read the same clock value and draw the same
  random number produce the same identifier, so the second generation's identifier is
  already in the active list.
\<close>

theorem identifier_collision_counterexample:
  "trim (js ''A sunset'') \<noteq> []
   \<and> activeGenerations (generateVideo_begin 1757189846270 (js ''0.4fzyo82mvyr'')
        (js ''2025-09-06T20:17:26.270Z'') (js ''A sunset'') sunsetConfig sunsetStarted)
     = activeGenerations sunsetStarted
       @ [newGeneration 1757189846270 (js ''0.4fzyo82mvyr'') (js ''2025-09-06T20:17:26.270Z'')
            (js ''A sunset'') sunsetConfig]
   \<and> gen_id (newGeneration 1757189846270 (js ''0.4fzyo82mvyr'') (js ''2025-09-06T20:17:26.270Z'')
        (js ''A sunset'') sunsetConfig)
     \<in> set (map gen_id (activeGenerations sunsetStarted))"
proof -
  have "trim (js ''A sunset'') \<noteq> []" by (simp add: trim_sunset) (simp add: js_def)
  then show ?thesis
    by (simp add: generateVideo_begin_def Let_def sunsetStarted_active sunsetGeneration_def)
qed

section \<open>Cancellation\<close>

text \<open>
  Claim C3. If \<open>cancelGeneration\<close> finds a generation with the identifier in the active
  list, it puts that generation with status \<open>failed\<close> and error \<open>Cancelled by user\<close> in
  front of the history (in memory and in the store) and removes every entry with the
  identifier from the active list; such a generation is found whenever the identifier
  occurs in the active list. If the identifier does not occur in the active list, the
  whole state (active list, history, store) is unchanged.
\<close>

theorem cancel_behaviour:
  "(find (\<lambda>g. gen_id g = ident) (activeGenerations s) = Some generation \<longrightarrow>
      generationHistory (cancelGeneration J stamp ident s)
        = generation \<lparr> status := failed, error := Some (js ''Cancelled by user''),
            completedAt := Some stamp \<rparr> # generationHistory s
      \<and> storage (cancelGeneration J stamp ident s)
        = saveGenerationToHistory J
            (Generation_json (generation \<lparr> status := failed,
               error := Some (js ''Cancelled by user''), completedAt := Some stamp \<rparr>))
            (storage s)
      \<and> activeGenerations (cancelGeneration J stamp ident s)
        = filter (\<lambda>g. gen_id g \<noteq> ident) (activeGenerations s)
      \<and> ident \<notin> set (map gen_id (activeGenerations (cancelGeneration J stamp ident s))))
   \<and> (ident \<in> set (map gen_id (activeGenerations s)) \<longrightarrow>
        (\<exists>generation. find (\<lambda>g. gen_id g = ident) (activeGenerations s) = Some generation
           \<and> generation \<in> set (activeGenerations s) \<and> gen_id generation = ident))
   \<and> (ident \<notin> set (map gen_id (activeGenerations s)) \<longrightarrow> cancelGeneration J stamp ident s = s)"
proof (intro conjI impI)
  assume "ident \<in> set (map gen_id (activeGenerations s))"
  then show "\<exists>generation. find (\<lambda>g. gen_id g = ident) (activeGenerations s) = Some generation
           \<and> generation \<in> set (activeGenerations s) \<and> gen_id generation = ident"
    by (rule find_active)
next
  assume "ident \<notin> set (map gen_id (activeGenerations s))"
  then show "cancelGeneration J stamp ident s = s" by (rule cancel_noop)
qed (simp_all add: cancelGeneration_def Let_def filter_removes)

theorem cancel_behaviour_witness:
  "generationHistory (cancelGeneration flagsJSON (js ''2025-09-06T20:17:28.000Z'')
       (gen_id sunsetGeneration) sunsetStarted)
     = [sunsetGeneration \<lparr> status := failed, error := Some (js ''Cancelled by user''),
          completedAt := Some (js ''2025-09-06T20:17:28.000Z'') \<rparr>]
   \<and> activeGenerations (cancelGeneration flagsJSON (js ''2025-09-06T20:17:28.000Z'')
       (gen_id sunsetGeneration) sunsetStarted) = []
   \<and> cancelGeneration flagsJSON (js ''2025-09-06T20:17:28.000Z'') (js ''gen_0_none'') sunsetStarted
     = sunsetStarted"
proof -
  have found: "find (\<lambda>g. gen_id g = gen_id sunsetGeneration) (activeGenerations sunsetStarted)
      = Some sunsetGeneration"
    by (simp add: sunsetStarted_active)
  have "gen_id sunsetGeneration \<noteq> js ''gen_0_none''"
    by (simp add: sunsetGeneration_fields generateUniqueId_def js_def decimal.simps)
  then have absent: "js ''gen_0_none'' \<notin> set (map gen_id (activeGenerations sunsetStarted))"
    by (simp add: sunsetStarted_active)
  from cancel_behaviour [of "gen_id sunsetGeneration" sunsetStarted sunsetGeneration flagsJSON
      "js ''2025-09-06T20:17:28.000Z''"] found
  have "generationHistory (cancelGeneration flagsJSON (js ''2025-09-06T20:17:28.000Z'')
       (gen_id sunsetGeneration) sunsetStarted)
     = sunsetGeneration \<lparr> status := failed, error := Some (js ''Cancelled by user''),
          completedAt := Some (js ''2025-09-06T20:17:28.000Z'') \<rparr> # generationHistory sunsetStarted"
    and "activeGenerations (cancelGeneration flagsJSON (js ''2025-09-06T20:17:28.000Z'')
       (gen_id sunsetGeneration) sunsetStarted)
     = filter (\<lambda>g. gen_id g \<noteq> gen_id sunsetGeneration) (activeGenerations sunsetStarted)"
    by blast+
  moreover from cancel_behaviour [of "js ''gen_0_none''" sunsetStarted sunsetGeneration flagsJSON
      "js ''2025-09-06T20:17:28.000Z''"] absent
  have "cancelGeneration flagsJSON (js ''2025-09-06T20:17:28.000Z'') (js ''gen_0_none'') sunsetStarted
     = sunsetStarted" by blast
  ultimately show ?thesis by (simp add: sunsetStarted_active sunsetStarted_history)
qed

section \<open>A late completion callback\<close>

text \<open>
  Claim C4. A completion callback that fires after its generation has left the active
  list must change nothing. The callback of the \<open>VideoGenerator\<close> component does not
  look at the active list: in the example run of the page the generation has been
  cancelled, neither list holds it, and the late callback puts a completed record with
  its identifier into the history. The callback of the hook checks membership (lemma
  \<open>fire_noop\<close>): in the same run of the hook the cancelled generation is in the history
  as \<open>failed\<close>, its timer is still pending, and its firing leaves the active list, the
  history and the store as they are.
\<close>

theorem component_callback_resurrects:
  "page_active sunsetPage = [sunsetGeneration]
   \<and> page_active sunsetPageCancelled = []
   \<and> page_history sunsetPageCancelled = []
   \<and> map gen_id (page_history sunsetPageFired) = [gen_id sunsetGeneration]
   \<and> map status (page_history sunsetPageFired) = [completed]
   \<and> sunsetPageFired \<noteq> sunsetPageCancelled
   \<and> activeGenerations sunsetCancelled = []
   \<and> map status (generationHistory sunsetCancelled) = [failed]
   \<and> timers sunsetCancelled = [gen_id sunsetGeneration]
   \<and> activeGenerations sunsetFired = activeGenerations sunsetCancelled
   \<and> generationHistory sunsetFired = generationHistory sunsetCancelled
   \<and> storage sunsetFired = storage sunsetCancelled"
proof -
  have "page_history sunsetPageFired \<noteq> page_history sunsetPageCancelled"
    by (simp add: sunsetPageFired_def VideoGenerator_pollForCompletion_fire_def
        handleGenerationComplete_def)
  then have "sunsetPageFired \<noteq> sunsetPageCancelled" by auto
  then show ?thesis
    by (simp add: sunsetPage_active sunsetPageCancelled_eq sunsetCancelled_lists sunsetFired_eq)
       (simp add: sunsetPageFired_def VideoGenerator_pollForCompletion_fire_def
          handleGenerationComplete_def sunsetPageCancelled_eq)
qed

section \<open>Progress\<close>

text \<open>
  Claim C5, as amended. In every state the hook reaches, with draws of \<open>Math.random\<close> in
  \<open>[0, 1)\<close>: a tick of the ticker keeps the length of the active list and never lowers
  the progress of an entry; it changes exactly the entries with progress below 90, to
  the minimum of the raised progress and 90, so no entry is raised above 90. A
  \<open>processing\<close> reply to the submission sets the progress of the generation's entries to
  5, whatever it was before. A record that a step puts in front of the history is
  \<open>completed\<close> exactly when its progress is 100, and every entry of the active list is
  \<open>processing\<close> with progress at most 90.
\<close>

theorem progress_behaviour:
  assumes "s = run J (mount loaded store) es" and "\<forall>i. 0 \<le> rnd i \<and> rnd i < 1"
  shows "length (activeGenerations (step J s (Tick rnd))) = length (activeGenerations s)
     \<and> (\<forall>i < length (activeGenerations s).
          progress (activeGenerations s ! i) \<le> progress (activeGenerations (step J s (Tick rnd)) ! i)
          \<and> progress (activeGenerations (step J s (Tick rnd)) ! i) \<le> 90
          \<and> activeGenerations (step J s (Tick rnd)) ! i
              = (if progress (activeGenerations s ! i) < 90
                 then (activeGenerations s ! i)
                        \<lparr> progress := min (progress (activeGenerations s ! i) + (rnd i * 8 + 2)) 90 \<rparr>
                 else activeGenerations s ! i))
     \<and> (\<forall>k stamp outcome response.
          k < length (awaiting s)
          \<and> VideoGenerationAPI_generateVideo (requestOf (awaiting s ! k)) outcome = Inr response
          \<and> success response \<and> res_status response = Some processing
        \<longrightarrow> activeGenerations (step J s (Respond k stamp outcome))
              = map (\<lambda>g. if gen_id g = gen_id (awaiting s ! k)
                          then g \<lparr> taskId := res_taskId response, progress := 5 \<rparr> else g)
                  (activeGenerations s))
     \<and> (\<forall>e r. generationHistory (step J s e) = r # generationHistory s
        \<longrightarrow> (status r = completed \<longleftrightarrow> progress r = 100))
     \<and> list_all (\<lambda>g. status g = processing \<and> progress g \<le> 90) (activeGenerations s)"
proof -
  from assms(1) have inv: "tracker_inv s" by (simp add: inv_reachable)
  then have act: "list_all unfinished (activeGenerations s)" by (simp add: tracker_inv_def)
  have len: "length (activeGenerations (step J s (Tick rnd))) = length (activeGenerations s)"
    by (simp add: progressTick_def tickAll_length)
  have tick: "progress (activeGenerations s ! i) \<le> progress (activeGenerations (step J s (Tick rnd)) ! i)
          \<and> progress (activeGenerations (step J s (Tick rnd)) ! i) \<le> 90
          \<and> activeGenerations (step J s (Tick rnd)) ! i
              = (if progress (activeGenerations s ! i) < 90
                 then (activeGenerations s ! i)
                        \<lparr> progress := min (progress (activeGenerations s ! i) + (rnd i * 8 + 2)) 90 \<rparr>
                 else activeGenerations s ! i)"
    if "i < length (activeGenerations s)" for i
  proof -
    from act that have u: "unfinished (activeGenerations s ! i)" by (simp add: list_all_length)
    have eq: "activeGenerations (step J s (Tick rnd)) ! i = tickOne (rnd i) (activeGenerations s ! i)"
      using that by (simp add: progressTick_def tickAll_nth)
    from assms(2) have "0 \<le> rnd i" by simp
    from tickOne_progress [OF this, of "activeGenerations s ! i"] u
    show ?thesis unfolding eq by (simp add: unfinished_def) (simp add: tickOne_def Let_def)
  qed
  have accept: "activeGenerations (step J s (Respond k stamp outcome))
              = map (\<lambda>g. if gen_id g = gen_id (awaiting s ! k)
                          then g \<lparr> taskId := res_taskId response, progress := 5 \<rparr> else g)
                  (activeGenerations s)"
    if "k < length (awaiting s)"
      and "VideoGenerationAPI_generateVideo (requestOf (awaiting s ! k)) outcome = Inr response"
      and "success response \<and> res_status response = Some processing"
    for k stamp outcome response
    using resume_accepts [OF that(2,3), of J stamp "s \<lparr> awaiting := dropAt k (awaiting s) \<rparr>"] that(1)
    by simp
  have hundred: "status r = completed \<longleftrightarrow> progress r = 100"
    if "generationHistory (step J s e) = r # generationHistory s" for e r
    using inv that by (rule step_record_progress)
  have bounded: "list_all (\<lambda>g. status g = processing \<and> progress g \<le> 90) (activeGenerations s)"
    using act by (simp add: list_all_iff unfinished_def)
  from len tick accept hundred bounded show ?thesis by blast
qed

theorem progress_behaviour_witness:
  "progress (activeGenerations sunsetStarted ! 0) = 0
   \<and> progress (activeGenerations (step flagsJSON sunsetStarted (Tick (\<lambda>i. 1 / 2))) ! 0) = 6
   \<and> map progress (activeGenerations (step flagsJSON sunsetTicked
        (Respond 0 (js ''2025-09-06T20:17:29.000Z'') (Responds 200 (Inr acceptedResponse))))) = [5]"
proof -
  have range: "\<forall>i::nat. (0::real) \<le> 1 / 2 \<and> (1::real) / 2 < 1" by simp
  have first: "0 < length (activeGenerations sunsetStarted)" by (simp add: sunsetStarted_active)
  from progress_behaviour [OF sunsetStarted_run range] first
  have "activeGenerations (step flagsJSON sunsetStarted (Tick (\<lambda>i. 1 / 2))) ! 0
      = (if progress (activeGenerations sunsetStarted ! 0) < 90
         then (activeGenerations sunsetStarted ! 0)
                \<lparr> progress := min (progress (activeGenerations sunsetStarted ! 0) + (1 / 2 * 8 + 2)) 90 \<rparr>
         else activeGenerations sunsetStarted ! 0)"
    by blast
  then have ticked: "progress (activeGenerations sunsetStarted ! 0) = 0
   \<and> progress (activeGenerations (step flagsJSON sunsetStarted (Tick (\<lambda>i. 1 / 2))) ! 0) = 6"
    by (simp add: sunsetStarted_active sunsetGeneration_fields)
  have suspended: "0 < length (awaiting sunsetTicked)" by (simp add: sunsetTicked_awaiting)
  have reply: "VideoGenerationAPI_generateVideo (requestOf (awaiting sunsetTicked ! 0))
      (Responds 200 (Inr acceptedResponse)) = Inr acceptedResponse" by (rule api_ok)
  have accepted: "success acceptedResponse \<and> res_status acceptedResponse = Some processing"
    by (simp add: acceptedResponse_def)
  from progress_behaviour [OF sunsetTicked_run range] suspended reply accepted
  have "activeGenerations (step flagsJSON sunsetTicked
          (Respond 0 (js ''2025-09-06T20:17:29.000Z'') (Responds 200 (Inr acceptedResponse))))
        = map (\<lambda>g. if gen_id g = gen_id (awaiting sunsetTicked ! 0)
                    then g \<lparr> taskId := res_taskId acceptedResponse, progress := 5 \<rparr> else g)
            (activeGenerations sunsetTicked)"
    by blast
  then have "map progress (activeGenerations (step flagsJSON sunsetTicked
        (Respond 0 (js ''2025-09-06T20:17:29.000Z'') (Responds 200 (Inr acceptedResponse))))) = [5]"
    by (simp add: sunsetTicked_active sunsetTicked_awaiting del: step.simps)
  with ticked show ?thesis by simp
qed

text \<open>
  The claim as stated fails at the reply to the submission: in the example run the
  entry is \<open>processing\<close> with progress 6 after the tick and \<open>processing\<close> with progress 5
  after the reply.
\<close>

theorem progress_decrease_counterexample:
  "status (activeGenerations sunsetTicked ! 0) = processing
   \<and> status (activeGenerations sunsetAccepted ! 0) = processing
   \<and> gen_id (activeGenerations sunsetAccepted ! 0) = gen_id (activeGenerations sunsetTicked ! 0)
   \<and> progress (activeGenerations sunsetTicked ! 0) = 6
   \<and> progress (activeGenerations sunsetAccepted ! 0) = 5
   \<and> \<not> progress (activeGenerations sunsetTicked ! 0)
         \<le> progress (activeGenerations sunsetAccepted ! 0)"
  by (simp add: sunsetTicked_active sunsetAccepted_active sunsetGeneration_fields)

section \<open>The history store\<close>

text \<open>
  Claim C6. When the store holds a list, \<open>saveGenerationToHistory\<close> writes the list made
  of the new record followed by the first 49 old records, in their order: at most 50
  entries; all old records when there were fewer than 50; and, when there were 50, all
  but the last (oldest) one. If \<open>JSON.parse\<close> reads this written text back, then loading
  after the save yields exactly that list.
\<close>

theorem save_caps_history:
  assumes "getGenerationHistory J store = JArr history"
  shows "saveGenerationToHistory J generation store
           = Some (stringify J 0 (JArr (generation # take 49 history)))
     \<and> length (generation # take 49 history) \<le> 50
     \<and> (length history < 50 \<longrightarrow> generation # take 49 history = generation # history)
     \<and> (length history = 50 \<longrightarrow> generation # take 49 history = generation # butlast history)
     \<and> (parse J [] = None
          \<and> parse J (stringify J 0 (JArr (generation # take 49 history)))
              = Some (JArr (generation # take 49 history))
        \<longrightarrow> getGenerationHistory J (saveGenerationToHistory J generation store)
              = JArr (generation # take 49 history))"
proof -
  have saved: "saveGenerationToHistory J generation store
           = Some (stringify J 0 (JArr (generation # take 49 history)))"
    using assms by (simp add: saveGenerationToHistory_def)
  have evict: "length history = 50 \<Longrightarrow> take 49 history = butlast history"
    by (simp add: butlast_conv_take)
  have reload: "getGenerationHistory J (saveGenerationToHistory J generation store)
              = JArr (generation # take 49 history)"
    if "parse J [] = None"
      and "parse J (stringify J 0 (JArr (generation # take 49 history)))
              = Some (JArr (generation # take 49 history))"
  proof -
    from that have "stringify J 0 (JArr (generation # take 49 history)) \<noteq> []" by auto
    with that(2) show ?thesis by (simp add: saved getGenerationHistory_def)
  qed
  from saved evict reload show ?thesis by simp
qed

theorem save_caps_history_witness:
  "getGenerationHistory flagsJSON
     (saveGenerationToHistory flagsJSON (JBool False)
        (Some (stringify flagsJSON 0 (JArr (replicate 49 (JBool False) @ [JBool True])))))
   = JArr (replicate 50 (JBool False))"
proof -
  let ?h = "replicate 49 (JBool False) @ [JBool True]"
  let ?store = "Some (stringify flagsJSON 0 (JArr ?h))"
  have written: "stringify flagsJSON 0 (JArr ?h) = [0x5B] @ replicate 49 0x66 @ [0x74, 0x5D]"
    by (simp add: flagsJSON_def map_replicate_const)
  have loaded: "getGenerationHistory flagsJSON ?store = JArr ?h"
    by (simp add: getGenerationHistory_def written)
       (simp add: flagsJSON_def butlast_append list_all_iff map_replicate_const)
  have len: "length ?h = 50" by simp
  have upd: "JBool False # take 49 ?h = replicate 50 (JBool False)"
    by (simp add: replicate_Suc [symmetric] del: replicate_Suc)
  have empty: "parse flagsJSON [] = None" by (simp add: flagsJSON_def)
  have reparse: "parse flagsJSON (stringify flagsJSON 0 (JArr (JBool False # take 49 ?h)))
              = Some (JArr (JBool False # take 49 ?h))"
    unfolding upd
    by (simp add: flagsJSON_def butlast_append list_all_iff map_replicate_const)
  from save_caps_history [OF loaded, of "JBool False"] empty reparse
  have "getGenerationHistory flagsJSON (saveGenerationToHistory flagsJSON (JBool False) ?store)
        = JArr (JBool False # take 49 ?h)" by blast
  then show ?thesis unfolding upd .
qed



section \<open>The API client never throws\<close>



section \<open>Validation at the proxy endpoint\<close>

text \<open>
  Claim C9. If the prompt of a submission is absent or empty, or longer than 1000
  code units, or the duration is not one of 5, 10, 15, 30, or the aspect ratio is not
  one of 16:9, 9:16, 1:1, then \<open>POST\<close> answers with status 400 and \<open>success = false\<close> and
  makes no call to the external provider. Conversely, whenever the provider is called,
  all of these checks have passed.
\<close>

theorem post_validation:
  "(\<not> truthy (req_prompt request) \<or> length (the (req_prompt request)) > 1000
      \<or> req_duration request \<notin> {5, 10, 15, 30}
      \<or> req_aspectRatio request \<notin> {js ''16:9'', js ''9:16'', js ''1:1''}
    \<longrightarrow> http_status (fst (POST lower now r36 (Inr request) outcome)) = 400
        \<and> \<not> success (body (fst (POST lower now r36 (Inr request) outcome)))
        \<and> snd (POST lower now r36 (Inr request) outcome) = [])
   \<and> (snd (POST lower now r36 (Inr request) outcome) \<noteq> []
    \<longrightarrow> truthy (req_prompt request) \<and> length (the (req_prompt request)) \<le> 1000
        \<and> req_duration request \<in> {5, 10, 15, 30}
        \<and> req_aspectRatio request \<in> {js ''16:9'', js ''9:16'', js ''1:1''})"
  by (auto simp: POST_def badRequest_def emptyResponse_def validDurations_def validAspectRatios_def
      Let_def split: sum.splits)

theorem post_validation_witness:
  "http_status (fst (POST asciiLowerCase 0 [] (Inr (sunsetRequest \<lparr> req_prompt := Some (replicate 1001 0x61) \<rparr>))
      NoMessage)) = 400
   \<and> \<not> success (body (fst (POST asciiLowerCase 0 [] (Inr (sunsetRequest \<lparr> req_prompt := Some (replicate 1001 0x61) \<rparr>))
      NoMessage)))
   \<and> snd (POST asciiLowerCase 0 [] (Inr (sunsetRequest \<lparr> req_prompt := Some (replicate 1001 0x61) \<rparr>)) NoMessage) = []
   \<and> http_status (fst (POST asciiLowerCase 0 [] (Inr (sunsetRequest \<lparr> req_duration := 7 \<rparr>)) NoMessage)) = 400
   \<and> \<not> success (body (fst (POST asciiLowerCase 0 [] (Inr (sunsetRequest \<lparr> req_duration := 7 \<rparr>)) NoMessage)))
   \<and> snd (POST asciiLowerCase 0 [] (Inr (sunsetRequest \<lparr> req_duration := 7 \<rparr>)) NoMessage) = []
   \<and> snd (POST asciiLowerCase 0 [] (Inr sunsetRequest) NoMessage) \<noteq> []
   \<and> req_duration sunsetRequest \<in> {5, 10, 15, 30}"
proof -
  have long: "length (the (req_prompt (sunsetRequest \<lparr> req_prompt := Some (replicate 1001 0x61) \<rparr>))) > 1000"
    by simp
  have seven: "req_duration (sunsetRequest \<lparr> req_duration := 7 \<rparr>) \<notin> {5, 10, 15, 30}"
    by simp
  have called: "snd (POST asciiLowerCase 0 [] (Inr sunsetRequest) NoMessage) \<noteq> []"
    by (simp add: POST_def sunsetRequest_def js_def trim_def isWhiteSpace_def
        validDurations_def validAspectRatios_def handleProvider_def Let_def)
  from long seven called
    post_validation [of "sunsetRequest \<lparr> req_prompt := Some (replicate 1001 0x61) \<rparr>"
      asciiLowerCase 0 "[]" NoMessage]
    post_validation [of "sunsetRequest \<lparr> req_duration := 7 \<rparr>" asciiLowerCase 0 "[]" NoMessage]
    post_validation [of sunsetRequest asciiLowerCase 0 "[]" NoMessage]
  show ?thesis by blast
qed

text \<open>
  Claim C10. \<open>validateVideoRequest\<close> returns \<open>null\<close> exactly when \<open>POST\<close> passes its
  validation and calls the provider; and when \<open>validateVideoRequest\<close> returns a message,
  \<open>POST\<close> rejects with status 400 and the same message, without calling the provider.
\<close>

theorem validators_agree:
  "(validateVideoRequest request = None
      \<longleftrightarrow> snd (POST lower now r36 (Inr request) outcome) = [createEnhancedPrompt lower request])
   \<and> (\<forall>msg. validateVideoRequest request = Some msg
      \<longrightarrow> POST lower now r36 (Inr request) outcome = (badRequest msg, []))"
proof (cases "validateVideoRequest request")
  case None
  then have passed:
    "\<not> (\<not> truthy (req_prompt request) \<or> length (trim (the (req_prompt request))) = 0)"
    "\<not> length (the (req_prompt request)) > 1000"
    "req_duration request \<in> set validDurations"
    "req_aspectRatio request \<in> set validAspectRatios"
    by (simp_all add: validateVideoRequest_def split: if_splits)
  then have "snd (POST lower now r36 (Inr request) outcome) = [createEnhancedPrompt lower request]"
    by (simp add: POST_def Let_def split: sum.splits)
  with None show ?thesis by simp
next
  case (Some msg)
  then have "POST lower now r36 (Inr request) outcome = (badRequest msg, [])"
    by (auto simp: POST_def validateVideoRequest_def split: if_splits)
  with Some show ?thesis by simp
qed

theorem validators_agree_witness:
  "validateVideoRequest (sunsetRequest \<lparr> req_duration := 7 \<rparr>)
     = Some (js ''Duration must be 5, 10, 15, or 30 seconds'')
   \<and> POST asciiLowerCase 0 [] (Inr (sunsetRequest \<lparr> req_duration := 7 \<rparr>)) NoMessage
     = (badRequest (js ''Duration must be 5, 10, 15, or 30 seconds''), [])
   \<and> validateVideoRequest sunsetRequest = None
   \<and> snd (POST asciiLowerCase 0 [] (Inr sunsetRequest) NoMessage) = [createEnhancedPrompt asciiLowerCase sunsetRequest]"
proof -
  have rejected: "validateVideoRequest (sunsetRequest \<lparr> req_duration := 7 \<rparr>)
     = Some (js ''Duration must be 5, 10, 15, or 30 seconds'')"
    by (simp add: validateVideoRequest_def sunsetRequest_def js_def trim_def isWhiteSpace_def
        validDurations_def)
  have accepted: "validateVideoRequest sunsetRequest = None"
    by (simp add: validateVideoRequest_def sunsetRequest_def js_def trim_def isWhiteSpace_def
        validDurations_def validAspectRatios_def)
  from rejected accepted
    validators_agree [of "sunsetRequest \<lparr> req_duration := 7 \<rparr>" asciiLowerCase 0 "[]" NoMessage]
    validators_agree [of sunsetRequest asciiLowerCase 0 "[]" NoMessage]
  show ?thesis by blast
qed

end
